theory Spec2Isabelle
  imports Main "HOL-Library.Word" "HOL-Library.Signed_Division"
begin

unbundle bit_operations_syntax

section \<open>Machine types and constants\<close>

text \<open>
  The filter is C++ code over fixed-width integers.  \<open>int64_t\<close> is a 64-bit word read
  as two's complement (\<open>sint\<close>); \<open><s\<close> and \<open>\<le>s\<close> are the signed comparisons.  Arithmetic
  wraps around, which agrees with the C++ program on every run without signed overflow.
  \<open>ts::PID\<close> is \<open>uint16_t\<close>, a table id is \<open>uint8_t\<close>.  \<open>ts::Time\<close>, \<open>ts::MilliSecond\<close> and
  \<open>ts::Second\<close> belong to the TSDuck library; a time is kept at the resolution the filter
  uses, a signed 64-bit count of milliseconds, and the two durations are \<open>int64_t\<close>.
\<close>

type_synonym int64_t = "64 word"
type_synonym uint16_t = "16 word"
type_synonym uint8_t = "8 word"
type_synonym PID = "16 word"
type_synonym TID = "8 word"
type_synonym Time = "64 word"
type_synonym MilliSecond = "64 word"
type_synonym Second = "64 word"

text \<open>
  Modelled from the spec: \<open>kPcrUpperBound\<close> and \<open>kPcrTicksPerMs\<close> are declared in
  \<open>base.hh\<close>, which is not among the sources; the spec gives \<open>kPcrUpperBound = 2^33\<close> and
  \<open>kPcrTicksPerMs = 90\<close>.
\<close>

definition kPcrUpperBound :: int64_t where
  "kPcrUpperBound = 2 ^ 33"

definition kPcrTicksPerMs :: int64_t where
  "kPcrTicksPerMs = 90"

text \<open>\<open>ts::MilliSecPerSec\<close> of TSDuck.\<close>

definition MilliSecPerSec :: int64_t where
  "MilliSecPerSec = 1000"

text \<open>
  The PIDs and table ids the filter names are TSDuck constants whose values are fixed by
  MPEG-2 Systems and by DVB/ARIB SI: PAT on PID 0x0000, EIT on PID 0x0012, the null PID
  0x1FFF, and the table ids of PAT, PMT and EIT present/following (actual).
\<close>

definition PID_PAT :: PID where "PID_PAT = 0x0000"
definition PID_EIT :: PID where "PID_EIT = 0x0012"
definition PID_NULL :: PID where "PID_NULL = 0x1FFF"

definition TID_PAT :: TID where "TID_PAT = 0x00"
definition TID_PMT :: TID where "TID_PMT = 0x02"
definition TID_EIT_PF_ACT :: TID where "TID_EIT_PF_ACT = 0x4E"

text \<open>
  \<open>std::abs\<close> on \<open>int64_t\<close>.  (The least value, whose absolute value C++ leaves undefined,
  is its own negation under wrap-around.)
\<close>

definition std_abs :: "int64_t \<Rightarrow> int64_t" where
  "std_abs x = (if x <s 0 then - x else x)"

text \<open>
  The C++ operator \<open>%\<close> on \<open>int64_t\<close>: the remainder of the division that truncates
  towards zero.
\<close>

definition int64_rem :: "int64_t \<Rightarrow> int64_t \<Rightarrow> int64_t" where
  "int64_rem a b = word_of_int (sint a smod sint b)"

section \<open>PCR arithmetic\<close>

text \<open>
  \<open>ComparePcr\<close> is the member function of the filter in the earlier copy of the class
  (\<open>airtime_tracker.hh\<close>, lines 205 to 216); \<open>program_filter.hh\<close> calls it and does not
  define it.
  \<^verbatim>\<open>
  int64_t ComparePcr(int64_t lhs, int64_t rhs) {
    auto a = lhs - rhs;
    auto b = lhs - (kPcrUpperBound + rhs);
    if (std::abs(a) < std::abs(b)) {
      return a;
    }
    return b;
  }
  \<close>
\<close>

definition ComparePcr :: "int64_t \<Rightarrow> int64_t \<Rightarrow> int64_t" where
  "ComparePcr lhs rhs =
     (let a = lhs - rhs;
          b = lhs - (kPcrUpperBound + rhs)
      in if std_abs a <s std_abs b then a else b)"

record ProgramFilterOption =
  sid :: uint16_t
  eid :: uint16_t
  clock_pcr :: int64_t
  clock_time :: Time
  start_margin :: MilliSecond
  end_margin :: MilliSecond
  pre_streaming :: bool

text \<open>
  The loop \<^verbatim>\<open>while (pcr < 0) { pcr += kPcrUpperBound; }\<close> of \<open>ConvertTimeToPcr\<close>.
  A negative \<open>pcr\<close> grows by \<open>2^33\<close> without overflow, so the loop ends.
\<close>

function add_while_negative :: "int64_t \<Rightarrow> int64_t" where
  "add_while_negative pcr =
     (if pcr <s 0 then add_while_negative (pcr + kPcrUpperBound) else pcr)"
  by pat_completeness auto
termination
proof (relation "measure (\<lambda>p. nat (- sint p))")
  show "wf (measure (\<lambda>p::int64_t. nat (- sint p)))"
    by simp
next
  fix pcr :: int64_t
  assume "pcr <s 0"
  then have neg: "sint pcr < 0"
    by (simp add: word_sless_alt)
  have lo: "- (2 ^ 63) \<le> sint pcr"
    using sint_ge [of pcr] by simp
  have "sint (pcr + kPcrUpperBound) = signed_take_bit 63 (sint pcr + 2 ^ 33)"
    by (simp add: sint_word_ariths kPcrUpperBound_def)
  also have "\<dots> = sint pcr + 2 ^ 33"
    using neg lo by (intro signed_take_bit_int_eq_self) simp_all
  finally have "sint (pcr + kPcrUpperBound) = sint pcr + 2 ^ 33" .
  then show "(pcr + kPcrUpperBound, pcr) \<in> measure (\<lambda>p. nat (- sint p))"
    using neg by simp
qed

declare add_while_negative.simps [simp del]

text \<open>
  \<^verbatim>\<open>
  int64_t ConvertTimeToPcr(const ts::Time& time) {
    auto ms = time - option_.clock_time;  // may be a negative value
    auto pcr = option_.clock_pcr + ms * kPcrTicksPerMs;
    while (pcr < 0) {
      pcr += kPcrUpperBound;
    }
    return pcr % kPcrUpperBound;
  }
  \<close>
\<close>

definition ConvertTimeToPcr :: "ProgramFilterOption \<Rightarrow> Time \<Rightarrow> int64_t" where
  "ConvertTimeToPcr opt time =
     (let ms = time - clock_time opt;
          pcr = clock_pcr opt + ms * kPcrTicksPerMs
      in int64_rem (add_while_negative pcr) kPcrUpperBound)"

text \<open>
  The conversion in the spec's words, on unbounded integers: \<open>raw = clock_pcr + ms * 90\<close>
  with \<open>ms = time - clock_time\<close>, then \<open>2^33\<close> is added until the value is not negative, and
  the result is reduced modulo \<open>2^33\<close>.
\<close>

function add_while_negative_spec :: "int \<Rightarrow> int" where
  "add_while_negative_spec raw =
     (if raw < 0 then add_while_negative_spec (raw + 2 ^ 33) else raw)"
  by pat_completeness auto
termination
  by (relation "measure (\<lambda>raw. nat (- raw))") auto

declare add_while_negative_spec.simps [simp del]

definition time_to_pcr_spec :: "int \<Rightarrow> int \<Rightarrow> int \<Rightarrow> int" where
  "time_to_pcr_spec time clock_time' clock_pcr' =
     (let ms = time - clock_time';
          raw = clock_pcr' + ms * 90
      in add_while_negative_spec raw mod 2 ^ 33)"

section \<open>Packets, tables and the downstream sink\<close>

text \<open>
  \<open>ts::TSPacket\<close> with the accessors the filter calls: \<open>getPID\<close>, \<open>getPUSI\<close> and the
  pair \<open>hasPCR\<close>/\<open>getPCR\<close>, kept as one optional field (the filter reads the PCR only after
  \<open>hasPCR\<close> has answered true).  The 188 bytes are carried along unread.
\<close>

record TSPacket =
  getPID :: PID
  getPUSI :: bool
  pcr_field :: "int64_t option"
  bytes :: "uint8_t list"

definition hasPCR :: "TSPacket \<Rightarrow> bool" where
  "hasPCR packet = (pcr_field packet \<noteq> None)"

text \<open>
  The tables as TSDuck deserialises them, with the fields the handlers read.
  \<open>ts::BinaryTable\<close> carries its table id and the PID it was collected on; \<open>as_PAT\<close>,
  \<open>as_PMT\<close> and \<open>as_EIT\<close> stand for the objects that \<^verbatim>\<open>ts::PAT pat(context_, table)\<close> and
  its siblings build from it, \<open>isValid\<close> included.
\<close>

record PAT =
  pat_isValid :: bool
  pat_ts_id :: uint16_t
  pmts :: "uint16_t \<rightharpoonup> PID"

record PMT =
  pmt_isValid :: bool
  pmt_service_id :: uint16_t
  pmt_pcr_pid :: PID

record Event =
  event_id :: uint16_t
  start_time :: Time
  duration :: Second

record EIT =
  eit_isValid :: bool
  eit_service_id :: uint16_t
  eit_ts_id :: uint16_t
  onetw_id :: uint16_t
  events :: "Event list"

record BinaryTable =
  tableId :: TID
  sourcePID :: PID
  as_PAT :: PAT
  as_PMT :: PMT
  as_EIT :: EIT

text \<open>
  \<open>PacketSink\<close> is an abstract class; the filter owns one through \<open>sink_\<close> and only calls
  its \<open>HandlePacket\<close>.  A sink is modelled by the packets it has received so far and by
  the answer it gives to the next one, which may depend on all of them.
\<close>

record PacketSink =
  received :: "TSPacket list"
  answer :: "TSPacket list \<Rightarrow> TSPacket \<Rightarrow> bool"

text \<open>
  Modelled from the spec: \<open>MIRAKC_ARIB_ASSERT\<close> is declared outside the sources; the spec
  has an assertion violation abort the process.
\<close>

datatype abort = AssertionFailed

section \<open>ProgramFilter\<close>

datatype State = kWaitReady | kStreaming

text \<open>
  The data members of the class, named as in the source without the trailing underscore
  (\<open>stop\<close> is \<open>stop_\<close>, and so on).  Of \<open>demux_\<close> (a \<open>ts::SectionDemux\<close>) the state
  keeps the set of PIDs that \<open>addPID\<close> and \<open>removePID\<close> maintain.
\<close>

record ProgramFilter =
  option :: ProgramFilterOption
  demux_pids :: "PID set"
  sink :: "PacketSink option"
  state :: State
  last_pat_packets :: "TSPacket list"
  last_pmt_packets :: "TSPacket list"
  pmt_pid :: PID
  pcr_pid :: PID
  start_pcr :: int64_t
  end_pcr :: int64_t
  pcr_pid_ready :: bool
  pcr_range_ready :: bool
  stop :: bool

text \<open>The constructor and \<open>Connect\<close>.\<close>

definition ProgramFilter_new :: "ProgramFilterOption \<Rightarrow> ProgramFilter" where
  "ProgramFilter_new opt =
     \<lparr>option = opt, demux_pids = {PID_PAT, PID_EIT}, sink = None,
      state = kWaitReady, last_pat_packets = [], last_pmt_packets = [],
      pmt_pid = PID_NULL, pcr_pid = PID_NULL, start_pcr = 0, end_pcr = 0,
      pcr_pid_ready = False, pcr_range_ready = False, stop = False\<rparr>"

definition Connect :: "PacketSink \<Rightarrow> ProgramFilter \<Rightarrow> ProgramFilter" where
  "Connect k s = s\<lparr>sink := Some k\<rparr>"

text \<open>
  \<^verbatim>\<open>sink_->HandlePacket(packet)\<close>: the sink receives the packet and answers.  The filter
  reaches the call only behind the test \<^verbatim>\<open>if (!sink_)\<close> of \<open>HandlePacket\<close>.
\<close>

definition sink_HandlePacket :: "TSPacket \<Rightarrow> ProgramFilter \<Rightarrow> bool \<times> ProgramFilter" where
  "sink_HandlePacket packet s =
     (case sink s of
        None \<Rightarrow> (False, s)
      | Some k \<Rightarrow>
          (answer k (received k) packet,
           s\<lparr>sink := Some (k\<lparr>received := received k @ [packet]\<rparr>)\<rparr>))"

text \<open>The packets the sink has received.\<close>

definition forwarded :: "ProgramFilter \<Rightarrow> TSPacket list" where
  "forwarded s = (case sink s of None \<Rightarrow> [] | Some k \<Rightarrow> received k)"

subsection \<open>Table handlers\<close>

text \<open>
  \<open>HandlePat\<close> (\<open>program_filter.hh\<close>, lines 208 to 254): a PAT from another PID than the
  PAT PID, a broken PAT and a PAT for TSID 0 are skipped; the assertion requires the
  service in \<open>pat.pmts\<close>; then the tracked PMT PID is replaced.
\<close>

definition HandlePat :: "BinaryTable \<Rightarrow> ProgramFilter \<Rightarrow> abort + ProgramFilter" where
  "HandlePat table s =
     (if sourcePID table \<noteq> PID_PAT then Inr s
      else
        let pat = as_PAT table in
        if \<not> pat_isValid pat then Inr s
        else if pat_ts_id pat = 0 then Inr s
        else
          case pmts pat (sid (option s)) of
            None \<Rightarrow> Inl AssertionFailed
          | Some new_pmt_pid \<Rightarrow>
              let s1 = (if pmt_pid s \<noteq> PID_NULL
                        then s\<lparr>demux_pids := demux_pids s - {pmt_pid s}, pmt_pid := PID_NULL\<rparr>
                        else s)
              in Inr (s1\<lparr>pmt_pid := new_pmt_pid,
                          demux_pids := insert new_pmt_pid (demux_pids s1)\<rparr>))"

definition HandlePmt :: "BinaryTable \<Rightarrow> ProgramFilter \<Rightarrow> ProgramFilter" where
  "HandlePmt table s =
     (let pmt = as_PMT table in
      if \<not> pmt_isValid pmt then s
      else if pmt_service_id pmt \<noteq> sid (option s) then s
      else s\<lparr>pcr_pid := pmt_pcr_pid pmt, pcr_pid_ready := True\<rparr>)"

definition UpdatePcrRange :: "Event \<Rightarrow> ProgramFilter \<Rightarrow> ProgramFilter" where
  "UpdatePcrRange event s =
     (let start_time' = start_time event - start_margin (option s);
          duration' = duration event * MilliSecPerSec + end_margin (option s);
          end_time = start_time event + duration'
      in s\<lparr>start_pcr := ConvertTimeToPcr (option s) start_time',
            end_pcr := ConvertTimeToPcr (option s) end_time,
            pcr_range_ready := True\<rparr>)"

text \<open>\<open>HandleEit\<close> (\<open>program_filter.hh\<close>, lines 275 to 329).\<close>

definition HandleEit :: "BinaryTable \<Rightarrow> ProgramFilter \<Rightarrow> ProgramFilter" where
  "HandleEit table s =
     (let eit = as_EIT table in
      if \<not> eit_isValid eit then s
      else if eit_service_id eit \<noteq> sid (option s) then s
      else if length (events eit) = 0 then s\<lparr>stop := True\<rparr>
      else
        let present = events eit ! 0 in
        if event_id present = eid (option s) then UpdatePcrRange present s
        else if length (events eit) < 2
          then (if state s = kStreaming then s else s\<lparr>stop := True\<rparr>)
        else
          let following = events eit ! 1 in
          if event_id following = eid (option s) then UpdatePcrRange following s
          else if state s = kStreaming then s
          else s\<lparr>stop := True\<rparr>)"

definition handleTable :: "BinaryTable \<Rightarrow> ProgramFilter \<Rightarrow> abort + ProgramFilter" where
  "handleTable table s =
     (if tableId table = TID_PAT then HandlePat table s
      else if tableId table = TID_PMT then Inr (HandlePmt table s)
      else if tableId table = TID_EIT_PF_ACT then Inr (HandleEit table s)
      else Inr s)"

text \<open>
  \<^verbatim>\<open>demux_.feedPacket(packet)\<close>: the section demultiplexer is TSDuck's.  What reaches the
  filter is the sequence of tables the demultiplexer completes with this packet, each
  handed to \<open>handleTable\<close> in turn; that sequence is an input of the model.
\<close>

fun feedPacket :: "BinaryTable list \<Rightarrow> ProgramFilter \<Rightarrow> abort + ProgramFilter" where
  "feedPacket [] s = Inr s"
| "feedPacket (table # tables) s =
     (case handleTable table s of
        Inl e \<Rightarrow> Inl e
      | Inr s1 \<Rightarrow> feedPacket tables s1)"

subsection \<open>WaitReady\<close>

text \<open>
  The block that saves the packets of the last PAT and of the last PMT
  (\<open>program_filter.hh\<close>, lines 95 to 112), entered when the packet is not a PAT packet
  forwarded live.
\<close>

definition save_psi_packet :: "TSPacket \<Rightarrow> ProgramFilter \<Rightarrow> ProgramFilter" where
  "save_psi_packet packet s =
     (let pid = getPID packet in
      if pid = PID_PAT then
        s\<lparr>last_pat_packets :=
             (if getPUSI packet then [] else last_pat_packets s) @ [packet]\<rparr>
      else if pmt_pid s \<noteq> PID_NULL \<and> pid = pmt_pid s then
        s\<lparr>last_pmt_packets :=
             (if getPUSI packet then [] else last_pmt_packets s) @ [packet]\<rparr>
      else s)"

text \<open>
  The loop over the pending PAT packets:
  \<^verbatim>\<open>
  for (const auto& pat : last_pat_packets_) {
    if (!sink_->HandlePacket(pat)) { return false; }
  }
  \<close>
\<close>

fun send_pat_packets :: "TSPacket list \<Rightarrow> ProgramFilter \<Rightarrow> bool \<times> ProgramFilter" where
  "send_pat_packets [] s = (True, s)"
| "send_pat_packets (pat # rest) s =
     (let (ok, s1) = sink_HandlePacket pat s
      in if \<not> ok then (False, s1) else send_pat_packets rest s1)"

text \<open>
  The loop over the pending PMT packets has \<open>clear()\<close> inside its body:
  \<^verbatim>\<open>
  for (const auto& pmt : last_pmt_packets_) {
    if (!sink_->HandlePacket(pmt)) { return false; }
    last_pmt_packets_.clear();
  }
  \<close>
  \<open>pmt_loop_body\<close> is one pass through the body.  The range-based \<open>for\<close> takes the begin and
  the end of the vector once, before the first pass, and \<open>clear()\<close> on a vector of
  \<open>ts::TSPacket\<close> (trivially destructible) resets the vector's end and leaves its storage as
  it is.  So the loop visits every packet that was buffered on entry, and the buffer is
  empty from the first pass on: \<open>send_pmt_packets\<close> walks the list taken on entry.  (The C++
  standard does not define iteration after \<open>clear()\<close>; this is what the program as built
  does.)
\<close>

definition pmt_loop_body :: "TSPacket \<Rightarrow> ProgramFilter \<Rightarrow> bool \<times> ProgramFilter" where
  "pmt_loop_body pmt s =
     (let (ok, s1) = sink_HandlePacket pmt s
      in if \<not> ok then (False, s1) else (True, s1\<lparr>last_pmt_packets := []\<rparr>))"

fun send_pmt_packets :: "TSPacket list \<Rightarrow> ProgramFilter \<Rightarrow> bool \<times> ProgramFilter" where
  "send_pmt_packets [] s = (True, s)"
| "send_pmt_packets (pmt # rest) s =
     (let (ok, s1) = pmt_loop_body pmt s
      in if \<not> ok then (False, s1) else send_pmt_packets rest s1)"

text \<open>
  The block "Send pending packets" with the transition (\<open>program_filter.hh\<close>, lines 144
  to 162).
\<close>

definition send_pending_packets ::
    "TSPacket \<Rightarrow> ProgramFilter \<Rightarrow> abort + (bool \<times> ProgramFilter)" where
  "send_pending_packets packet s =
     (if \<not> pre_streaming (option s) \<and> last_pat_packets s = [] then Inl AssertionFailed
      else
        let (ok1, s1) =
              (if \<not> pre_streaming (option s) then
                 (let (ok, t) = send_pat_packets (last_pat_packets s) s
                  in if \<not> ok then (False, t) else (True, t\<lparr>last_pat_packets := []\<rparr>))
               else (True, s))
        in if \<not> ok1 then Inr (False, s1)
           else
             let (ok2, s2) = send_pmt_packets (last_pmt_packets s1) s1
             in if \<not> ok2 then Inr (False, s2)
                else Inr (sink_HandlePacket packet (s2\<lparr>state := kStreaming\<rparr>)))"

text \<open>\<open>WaitReady\<close> (\<open>program_filter.hh\<close>, lines 87 to 163).\<close>

definition WaitReady :: "TSPacket \<Rightarrow> ProgramFilter \<Rightarrow> abort + (bool \<times> ProgramFilter)" where
  "WaitReady packet s =
     (if stop s then Inr (False, s)
      else
        let pid = getPID packet in
        if pid = PID_PAT \<and> pre_streaming (option s) then Inr (sink_HandlePacket packet s)
        else
          let s1 = save_psi_packet packet s in
          if \<not> pcr_pid_ready s1 \<or> \<not> pcr_range_ready s1 then Inr (True, s1)
          else if pid \<noteq> pcr_pid s1 then Inr (True, s1)
          else
            case pcr_field packet of
              None \<Rightarrow> Inr (True, s1)
            | Some pcr \<Rightarrow>
                if 0 \<le>s ComparePcr pcr (end_pcr s1) then Inr (False, s1)
                else if ComparePcr pcr (start_pcr s1) <s 0 then Inr (True, s1)
                else send_pending_packets packet s1)"

subsection \<open>DoStreaming and HandlePacket\<close>

text \<open>\<open>DoStreaming\<close> (\<open>program_filter.hh\<close>, lines 165 to 190).\<close>

definition DoStreaming :: "TSPacket \<Rightarrow> ProgramFilter \<Rightarrow> bool \<times> ProgramFilter" where
  "DoStreaming packet s =
     (if stop s then (False, s)
      else
        let pid = getPID packet in
        if pid = pcr_pid s then
          (case pcr_field packet of
             None \<Rightarrow> sink_HandlePacket packet s
           | Some pcr \<Rightarrow>
               if 0 \<le>s ComparePcr pcr (end_pcr s) then (False, s)
               else sink_HandlePacket packet s)
        else sink_HandlePacket packet s)"

text \<open>
  \<open>HandlePacket\<close> (\<open>program_filter.hh\<close>, lines 64 to 79).  \<open>tables\<close> are the tables that
  \<open>feedPacket\<close> completes with this packet.
\<close>

definition HandlePacket ::
    "TSPacket \<Rightarrow> BinaryTable list \<Rightarrow> ProgramFilter \<Rightarrow> abort + (bool \<times> ProgramFilter)" where
  "HandlePacket packet tables s =
     (if sink s = None then Inr (False, s)
      else
        case feedPacket tables s of
          Inl e \<Rightarrow> Inl e
        | Inr s1 \<Rightarrow>
            (case state s1 of
               kWaitReady \<Rightarrow> WaitReady packet s1
             | kStreaming \<Rightarrow> Inr (DoStreaming packet s1)))"

text \<open>
  A packet source that offers one packet after the other and keeps calling whatever
  \<open>HandlePacket\<close> returns; the results are collected in order.
\<close>

fun HandlePackets ::
    "(TSPacket \<times> BinaryTable list) list \<Rightarrow> ProgramFilter \<Rightarrow> abort + (bool list \<times> ProgramFilter)" where
  "HandlePackets [] s = Inr ([], s)"
| "HandlePackets ((packet, tables) # calls) s =
     (case HandlePacket packet tables s of
        Inl e \<Rightarrow> Inl e
      | Inr (r, s1) \<Rightarrow>
          (case HandlePackets calls s1 of
             Inl e \<Rightarrow> Inl e
           | Inr (rs, s2) \<Rightarrow> Inr (r # rs, s2)))"

section \<open>AirtimeTracker\<close>

record AirtimeTrackerOption =
  tracker_sid :: uint16_t
  tracker_eid :: uint16_t

text \<open>
  The JSON document that \<open>WriteEventInfo\<close> builds: its members in insertion order, each a
  name and the C++ integer it was given.
\<close>

datatype JsonValue = JsonUInt16 uint16_t | JsonInt64 int64_t

type_synonym Document = "(string \<times> JsonValue) list"

text \<open>
  The data members of \<open>AirtimeTracker\<close> (\<open>tracker_done\<close> is \<open>done_\<close>).
  Modelled from the spec: \<open>FeedDocument\<close> belongs to \<open>JsonlSource\<close> (\<open>jsonl_source.hh\<close>, not
  among the sources); the spec has it pass one document to the JSON line sink, which writes
  one record per document.  \<open>documents\<close> holds the documents fed so far, oldest first.
\<close>

record AirtimeTracker =
  tracker_option :: AirtimeTrackerOption
  tracker_demux_pids :: "PID set"
  tracker_done :: bool
  documents :: "Document list"

definition AirtimeTracker_new :: "AirtimeTrackerOption \<Rightarrow> AirtimeTracker" where
  "AirtimeTracker_new opt =
     \<lparr>tracker_option = opt, tracker_demux_pids = {PID_EIT}, tracker_done = False,
      documents = []\<rparr>"

definition FeedDocument :: "Document \<Rightarrow> AirtimeTracker \<Rightarrow> AirtimeTracker" where
  "FeedDocument json t = t\<lparr>documents := documents t @ [json]\<rparr>"

text \<open>
  \<open>WriteEventInfo\<close> (\<open>airtime_tracker.hh\<close>, lines 97 to 111).  \<open>ts::Time::UnixEpoch\<close> is a
  constant of TSDuck and a parameter here.
\<close>

definition WriteEventInfo :: "Time \<Rightarrow> EIT \<Rightarrow> Event \<Rightarrow> AirtimeTracker \<Rightarrow> AirtimeTracker" where
  "WriteEventInfo UnixEpoch eit event t =
     (let start_time' = start_time event - UnixEpoch;
          duration' = duration event * MilliSecPerSec;
          json = [(''nid'', JsonUInt16 (onetw_id eit)),
                  (''tsid'', JsonUInt16 (eit_ts_id eit)),
                  (''sid'', JsonUInt16 (eit_service_id eit)),
                  (''eid'', JsonUInt16 (event_id event)),
                  (''startTime'', JsonInt64 start_time'),
                  (''duration'', JsonInt64 duration')]
      in FeedDocument json t)"

text \<open>\<open>AirtimeTracker::HandleEit\<close> (\<open>airtime_tracker.hh\<close>, lines 53 to 95).\<close>

definition Tracker_HandleEit :: "Time \<Rightarrow> BinaryTable \<Rightarrow> AirtimeTracker \<Rightarrow> AirtimeTracker" where
  "Tracker_HandleEit UnixEpoch table t =
     (let eit = as_EIT table in
      if \<not> eit_isValid eit then t
      else if eit_service_id eit \<noteq> tracker_sid (tracker_option t) then t
      else if length (events eit) = 0 then t\<lparr>tracker_done := True\<rparr>
      else
        let present = events eit ! 0 in
        if event_id present = tracker_eid (tracker_option t)
          then WriteEventInfo UnixEpoch eit present t
        else if length (events eit) < 2 then t\<lparr>tracker_done := True\<rparr>
        else
          let following = events eit ! 1 in
          if event_id following = tracker_eid (tracker_option t)
            then WriteEventInfo UnixEpoch eit following t
          else t\<lparr>tracker_done := True\<rparr>)"

definition Tracker_handleTable :: "Time \<Rightarrow> BinaryTable \<Rightarrow> AirtimeTracker \<Rightarrow> AirtimeTracker" where
  "Tracker_handleTable UnixEpoch table t =
     (if tableId table = TID_EIT_PF_ACT then Tracker_HandleEit UnixEpoch table t else t)"

fun Tracker_feedPacket :: "Time \<Rightarrow> BinaryTable list \<Rightarrow> AirtimeTracker \<Rightarrow> AirtimeTracker" where
  "Tracker_feedPacket UnixEpoch [] t = t"
| "Tracker_feedPacket UnixEpoch (table # tables) t =
     Tracker_feedPacket UnixEpoch tables (Tracker_handleTable UnixEpoch table t)"

text \<open>\<open>AirtimeTracker::HandlePacket\<close> (\<open>airtime_tracker.hh\<close>, lines 34 to 40).\<close>

definition Tracker_HandlePacket ::
    "Time \<Rightarrow> TSPacket \<Rightarrow> BinaryTable list \<Rightarrow> AirtimeTracker \<Rightarrow> bool \<times> AirtimeTracker" where
  "Tracker_HandlePacket UnixEpoch packet tables t =
     (let t1 = Tracker_feedPacket UnixEpoch tables t
      in if tracker_done t1 then (False, t1) else (True, t1))"

section \<open>Frame conditions\<close>

text \<open>
  What a step may change, as relations between the state before and after: only the sink;
  the sink and the two packet buffers; everything the gating decisions do not read (sink,
  state and buffers); and, for the table handlers, everything but sink, state, options and
  buffers, with no flag reset.  \<open>no_reset\<close> is the order in which the control state moves.
\<close>

definition sink_only :: "ProgramFilter \<Rightarrow> ProgramFilter \<Rightarrow> bool" where
  "sink_only s s' = (s' = s\<lparr>sink := sink s'\<rparr>)"

definition sink_and_buffers :: "ProgramFilter \<Rightarrow> ProgramFilter \<Rightarrow> bool" where
  "sink_and_buffers s s' =
     (s' = s\<lparr>sink := sink s', last_pat_packets := last_pat_packets s',
              last_pmt_packets := last_pmt_packets s'\<rparr>)"

definition gating_kept :: "ProgramFilter \<Rightarrow> ProgramFilter \<Rightarrow> bool" where
  "gating_kept s s' =
     (s' = s\<lparr>sink := sink s', state := state s', last_pat_packets := last_pat_packets s',
              last_pmt_packets := last_pmt_packets s'\<rparr>)"

definition no_reset :: "ProgramFilter \<Rightarrow> ProgramFilter \<Rightarrow> bool" where
  "no_reset s s' =
     ((state s = kStreaming \<longrightarrow> state s' = kStreaming) \<and>
      (stop s \<longrightarrow> stop s') \<and>
      (pcr_pid_ready s \<longrightarrow> pcr_pid_ready s') \<and>
      (pcr_range_ready s \<longrightarrow> pcr_range_ready s'))"

definition tables_frame :: "ProgramFilter \<Rightarrow> ProgramFilter \<Rightarrow> bool" where
  "tables_frame s s' =
     (sink s' = sink s \<and> state s' = state s \<and> option s' = option s \<and>
      last_pat_packets s' = last_pat_packets s \<and> last_pmt_packets s' = last_pmt_packets s \<and>
      (stop s \<longrightarrow> stop s') \<and>
      (pcr_pid_ready s \<longrightarrow> pcr_pid_ready s') \<and>
      (pcr_range_ready s \<longrightarrow> pcr_range_ready s'))"

section \<open>An example stream\<close>

text \<open>
  The stream of the spec's first scenario: service 1, event 0x1000, the clock pair
  \<open>(0, T0)\<close> with \<open>T0 = 5000\<close>, a PAT naming PMT PID 0x0100, a PMT naming PCR PID 0x0200, an
  EIT whose present event is the target (start \<open>T0\<close>, one second), a sink that accepts
  every packet.
\<close>

definition example_option :: ProgramFilterOption where
  "example_option =
     \<lparr>sid = 1, eid = 0x1000, clock_pcr = 0, clock_time = 5000, start_margin = 0,
      end_margin = 0, pre_streaming = False\<rparr>"

definition example_sink :: PacketSink where
  "example_sink = \<lparr>received = [], answer = (\<lambda>history packet. True)\<rparr>"

definition pat_packet :: TSPacket where
  "pat_packet = \<lparr>getPID = 0x0000, getPUSI = True, pcr_field = None, bytes = []\<rparr>"

definition pmt_packet :: TSPacket where
  "pmt_packet = \<lparr>getPID = 0x0100, getPUSI = True, pcr_field = None, bytes = []\<rparr>"

definition eit_packet :: TSPacket where
  "eit_packet = \<lparr>getPID = 0x0012, getPUSI = True, pcr_field = None, bytes = []\<rparr>"

definition pcr_packet :: "int64_t \<Rightarrow> TSPacket" where
  "pcr_packet pcr = \<lparr>getPID = 0x0200, getPUSI = False, pcr_field = Some pcr, bytes = []\<rparr>"

definition video_packet :: TSPacket where
  "video_packet = \<lparr>getPID = 0x0300, getPUSI = False, pcr_field = None, bytes = []\<rparr>"

definition no_PAT :: PAT where
  "no_PAT = \<lparr>pat_isValid = False, pat_ts_id = 0, pmts = Map.empty\<rparr>"

definition no_PMT :: PMT where
  "no_PMT = \<lparr>pmt_isValid = False, pmt_service_id = 0, pmt_pcr_pid = 0\<rparr>"

definition no_EIT :: EIT where
  "no_EIT = \<lparr>eit_isValid = False, eit_service_id = 0, eit_ts_id = 0, onetw_id = 0, events = []\<rparr>"

definition pat_table :: BinaryTable where
  "pat_table =
     \<lparr>tableId = 0x00, sourcePID = 0x0000,
      as_PAT = \<lparr>pat_isValid = True, pat_ts_id = 0x7FE0, pmts = [1 \<mapsto> 0x0100]\<rparr>,
      as_PMT = no_PMT, as_EIT = no_EIT\<rparr>"

text \<open>The PAT of the comment in \<open>HandlePat\<close>: delivered on PID 0x0012, for TSID 0.\<close>

definition spurious_pat_table :: BinaryTable where
  "spurious_pat_table =
     \<lparr>tableId = 0x00, sourcePID = 0x0012,
      as_PAT = \<lparr>pat_isValid = True, pat_ts_id = 0, pmts = [1 \<mapsto> 0x0A70]\<rparr>,
      as_PMT = no_PMT, as_EIT = no_EIT\<rparr>"

definition pmt_table :: BinaryTable where
  "pmt_table =
     \<lparr>tableId = 0x02, sourcePID = 0x0100, as_PAT = no_PAT,
      as_PMT = \<lparr>pmt_isValid = True, pmt_service_id = 1, pmt_pcr_pid = 0x0200\<rparr>,
      as_EIT = no_EIT\<rparr>"

definition eit_table :: "Event list \<Rightarrow> BinaryTable" where
  "eit_table es =
     \<lparr>tableId = 0x4E, sourcePID = 0x0012, as_PAT = no_PAT, as_PMT = no_PMT,
      as_EIT = \<lparr>eit_isValid = True, eit_service_id = 1, eit_ts_id = 0x7FE0, onetw_id = 4,
                events = es\<rparr>\<rparr>"

definition target_event :: Event where
  "target_event = \<lparr>event_id = 0x1000, start_time = 5000, duration = 1\<rparr>"

definition other_event :: Event where
  "other_event = \<lparr>event_id = 0x0FFF, start_time = 2000, duration = 3\<rparr>"

text \<open>
  The filter after PAT, PMT and EIT have gone through \<open>HandlePacket\<close>, still
  waiting; \<open>example_start\<close> is the filter as constructed and connected.
\<close>

definition example_start :: "bool \<Rightarrow> ProgramFilter" where
  "example_start pre =
     Connect example_sink (ProgramFilter_new (example_option\<lparr>pre_streaming := pre\<rparr>))"

definition example_calls :: "(TSPacket \<times> BinaryTable list) list" where
  "example_calls =
     [(pat_packet, [pat_table]), (pmt_packet, [pmt_table]),
      (eit_packet, [eit_table [target_event]])]"

definition example_ready :: "bool \<Rightarrow> ProgramFilter" where
  "example_ready pre =
     \<lparr>option = example_option\<lparr>pre_streaming := pre\<rparr>,
      demux_pids = {0x0100, 0x0000, 0x0012},
      sink = Some (example_sink\<lparr>received := (if pre then [pat_packet] else [])\<rparr>),
      state = kWaitReady,
      last_pat_packets = (if pre then [] else [pat_packet]),
      last_pmt_packets = [pmt_packet],
      pmt_pid = 0x0100, pcr_pid = 0x0200, start_pcr = 0, end_pcr = 90000,
      pcr_pid_ready = True, pcr_range_ready = True, stop = False\<rparr>"

text \<open>
  The same filter (not pre-streaming) after the PCR packet with PCR 0 has started the
  streaming, and after a video packet and then an EIT without events have followed.
\<close>

definition example_streaming :: ProgramFilter where
  "example_streaming =
     (example_ready False)
       \<lparr>sink := Some (example_sink
                 \<lparr>received := [pat_packet, pmt_packet, pcr_packet 0]\<rparr>),
        state := kStreaming, last_pat_packets := [], last_pmt_packets := []\<rparr>"

definition example_stopped :: ProgramFilter where
  "example_stopped =
     example_streaming
       \<lparr>sink := Some (example_sink
                 \<lparr>received := [pat_packet, pmt_packet, pcr_packet 0,
                               video_packet]\<rparr>),
        stop := True\<rparr>"

text \<open>
  The same stream with a PMT section that spans two packets; the demultiplexer completes
  the PMT with the second one.
\<close>

definition long_pmt_packet1 :: TSPacket where
  "long_pmt_packet1 = \<lparr>getPID = 0x0100, getPUSI = True, pcr_field = None, bytes = [1]\<rparr>"

definition long_pmt_packet2 :: TSPacket where
  "long_pmt_packet2 = \<lparr>getPID = 0x0100, getPUSI = False, pcr_field = None, bytes = [2]\<rparr>"

definition long_pmt_calls :: "(TSPacket \<times> BinaryTable list) list" where
  "long_pmt_calls =
     [(pat_packet, [pat_table]), (long_pmt_packet1, []), (long_pmt_packet2, [pmt_table]),
      (eit_packet, [eit_table [target_event]])]"

definition long_pmt_ready :: ProgramFilter where
  "long_pmt_ready =
     (example_ready False)\<lparr>last_pmt_packets := [long_pmt_packet1, long_pmt_packet2]\<rparr>"

definition long_pmt_streaming :: ProgramFilter where
  "long_pmt_streaming =
     long_pmt_ready
       \<lparr>sink := Some (example_sink
                 \<lparr>received := [pat_packet, long_pmt_packet1, long_pmt_packet2,
                               pcr_packet 0]\<rparr>),
        state := kStreaming, last_pat_packets := [], last_pmt_packets := []\<rparr>"

text \<open>A packet on the PCR PID that carries no PCR, and a tracker for the same event.\<close>

definition packet_without_pcr :: TSPacket where
  "packet_without_pcr = \<lparr>getPID = 0x0200, getPUSI = False, pcr_field = None, bytes = []\<rparr>"

definition example_tracker :: AirtimeTracker where
  "example_tracker = AirtimeTracker_new \<lparr>tracker_sid = 1, tracker_eid = 0x1000\<rparr>"

section \<open>Properties of the PCR arithmetic\<close>

lemma add_while_negative_done:
  "\<not> pcr <s 0 \<Longrightarrow> add_while_negative pcr = pcr"
  by (subst add_while_negative.simps) simp

lemma add_while_negative_again:
  "pcr <s 0 \<Longrightarrow> add_while_negative pcr = add_while_negative (pcr + kPcrUpperBound)"
  by (subst add_while_negative.simps) simp

lemma sint_add_kPcrUpperBound:
  fixes p :: int64_t
  assumes neg: "sint p < 0"
  shows "sint (p + kPcrUpperBound) = sint p + 2 ^ 33"
proof -
  have lo: "- (2 ^ 63) \<le> sint p"
    using sint_ge [of p] by simp
  have "sint (p + kPcrUpperBound) = signed_take_bit 63 (sint p + 2 ^ 33)"
    by (simp add: sint_word_ariths kPcrUpperBound_def)
  also have "\<dots> = sint p + 2 ^ 33"
    using neg lo by (intro signed_take_bit_int_eq_self) simp_all
  finally show ?thesis .
qed

lemma sint_add_while_negative:
  "sint (add_while_negative p) = (if sint p < 0 then sint p mod 2 ^ 33 else sint p)"
proof (induction p rule: add_while_negative.induct)
  case (1 pcr)
  show ?case
  proof (cases "pcr <s 0")
    case True
    then have neg: "sint pcr < 0"
      by (simp add: word_sless_alt)
    have step: "sint (pcr + kPcrUpperBound) = sint pcr + 2 ^ 33"
      using neg by (rule sint_add_kPcrUpperBound)
    have ih: "sint (add_while_negative (pcr + kPcrUpperBound)) =
        (if sint pcr + 2 ^ 33 < 0 then (sint pcr + 2 ^ 33) mod 2 ^ 33 else sint pcr + 2 ^ 33)"
      using "1.IH" [OF True] step by simp
    have unf: "add_while_negative pcr = add_while_negative (pcr + kPcrUpperBound)"
      using True by (rule add_while_negative_again)
    have shift: "(sint pcr + 2 ^ 33) mod 2 ^ 33 = sint pcr mod 2 ^ 33"
      by simp
    show ?thesis
    proof (cases "sint pcr + 2 ^ 33 < 0")
      case True
      then show ?thesis
        using ih neg unf shift by simp
    next
      case False
      then have "(sint pcr + 2 ^ 33) mod 2 ^ 33 = sint pcr + 2 ^ 33"
        using neg by (intro mod_pos_pos_trivial) simp_all
      then have "sint pcr mod 2 ^ 33 = sint pcr + 2 ^ 33"
        using shift by simp
      then show ?thesis
        using ih neg unf False by simp
    qed
  next
    case False
    then show ?thesis
      by (simp add: word_sless_alt add_while_negative_done)
  qed
qed

lemma sint_add_while_negative_mod:
  "sint (add_while_negative p) mod 2 ^ 33 = sint p mod 2 ^ 33"
proof (cases "sint p < 0")
  case True
  then have "sint (add_while_negative p) = sint p mod 2 ^ 33"
    by (simp only: sint_add_while_negative if_True)
  then show ?thesis
    by (simp only: mod_mod_trivial)
next
  case False
  then have "sint (add_while_negative p) = sint p"
    by (simp only: sint_add_while_negative if_False)
  then show ?thesis
    by (simp only:)
qed

lemma sint_add_while_negative_nonneg:
  "0 \<le> sint (add_while_negative p)"
proof (cases "sint p < 0")
  case True
  then have "sint (add_while_negative p) = sint p mod 2 ^ 33"
    by (simp only: sint_add_while_negative if_True)
  moreover have "0 \<le> sint p mod 2 ^ 33"
    by (rule pos_mod_sign) simp
  ultimately show ?thesis
    by (simp only:)
next
  case False
  then have "sint (add_while_negative p) = sint p"
    by (simp only: sint_add_while_negative if_False)
  then show ?thesis
    using False by simp
qed

lemma mod33_sint_add:
  fixes a b :: int64_t
  shows "sint (a + b) mod 2 ^ 33 = (sint a + sint b) mod 2 ^ 33"
proof -
  have "take_bit 33 (sint (a + b)) = take_bit 33 (signed_take_bit 63 (sint a + sint b))"
    by (simp add: sint_word_ariths)
  also have "\<dots> = take_bit 33 (sint a + sint b)"
    by (rule take_bit_signed_take_bit) simp
  finally show ?thesis
    by (simp only: take_bit_eq_mod)
qed

lemma mod33_sint_diff:
  fixes a b :: int64_t
  shows "sint (a - b) mod 2 ^ 33 = (sint a - sint b) mod 2 ^ 33"
proof -
  have "take_bit 33 (sint (a - b)) = take_bit 33 (signed_take_bit 63 (sint a - sint b))"
    by (simp add: sint_word_ariths)
  also have "\<dots> = take_bit 33 (sint a - sint b)"
    by (rule take_bit_signed_take_bit) simp
  finally show ?thesis
    by (simp only: take_bit_eq_mod)
qed

lemma mod33_sint_mult:
  fixes a b :: int64_t
  shows "sint (a * b) mod 2 ^ 33 = (sint a * sint b) mod 2 ^ 33"
proof -
  have "take_bit 33 (sint (a * b)) = take_bit 33 (signed_take_bit 63 (sint a * sint b))"
    by (simp add: sint_word_ariths)
  also have "\<dots> = take_bit 33 (sint a * sint b)"
    by (rule take_bit_signed_take_bit) simp
  finally show ?thesis
    by (simp only: take_bit_eq_mod)
qed

lemma sint_int64_rem_kPcrUpperBound:
  fixes q :: int64_t
  assumes "0 \<le> sint q"
  shows "sint (int64_rem q kPcrUpperBound) = sint q mod 2 ^ 33"
proof -
  have ub: "sint kPcrUpperBound = 2 ^ 33"
    by (simp add: kPcrUpperBound_def)
  have sm: "sint q smod 2 ^ 33 = sint q mod 2 ^ 33"
    using assms by (simp add: smod_int_alt_def sgn_if)
  have lo: "0 \<le> sint q mod 2 ^ 33"
    by (rule pos_mod_sign) simp
  have hi: "sint q mod 2 ^ 33 < 2 ^ 33"
    by (rule pos_mod_bound) simp
  have "sint (int64_rem q kPcrUpperBound) = signed_take_bit 63 (sint q mod 2 ^ 33)"
    unfolding int64_rem_def ub sm by (simp add: sint_sbintrunc')
  also have "\<dots> = sint q mod 2 ^ 33"
    using lo hi by (intro signed_take_bit_int_eq_self) simp_all
  finally show ?thesis .
qed

lemma raw_pcr_mod33:
  fixes cp t ct :: int64_t
  shows "sint (cp + (t - ct) * kPcrTicksPerMs) mod 2 ^ 33
       = (sint cp + (sint t - sint ct) * 90) mod 2 ^ 33"
proof -
  have k: "sint kPcrTicksPerMs = 90"
    by (simp add: kPcrTicksPerMs_def)
  have "sint (cp + (t - ct) * kPcrTicksPerMs) mod 2 ^ 33
      = (sint cp + sint ((t - ct) * kPcrTicksPerMs)) mod 2 ^ 33"
    by (rule mod33_sint_add)
  also have "\<dots> = (sint cp + sint ((t - ct) * kPcrTicksPerMs) mod 2 ^ 33) mod 2 ^ 33"
    by (simp only: mod_add_right_eq)
  also have "sint ((t - ct) * kPcrTicksPerMs) mod 2 ^ 33 = (sint (t - ct) * 90) mod 2 ^ 33"
    by (simp only: mod33_sint_mult k)
  also have "\<dots> = (sint (t - ct) mod 2 ^ 33 * 90) mod 2 ^ 33"
    by (simp only: mod_mult_left_eq)
  also have "sint (t - ct) mod 2 ^ 33 = (sint t - sint ct) mod 2 ^ 33"
    by (rule mod33_sint_diff)
  also have "((sint t - sint ct) mod 2 ^ 33 * 90) mod 2 ^ 33 = ((sint t - sint ct) * 90) mod 2 ^ 33"
    by (simp only: mod_mult_left_eq)
  also have "(sint cp + ((sint t - sint ct) * 90) mod 2 ^ 33) mod 2 ^ 33
      = (sint cp + (sint t - sint ct) * 90) mod 2 ^ 33"
    by (simp only: mod_add_right_eq)
  finally show ?thesis .
qed

lemma time_to_pcr_spec_eq_mod:
  "time_to_pcr_spec time ct cp = (cp + (time - ct) * 90) mod 2 ^ 33"
proof -
  have "add_while_negative_spec raw mod 2 ^ 33 = raw mod 2 ^ 33" for raw
  proof (induction raw rule: add_while_negative_spec.induct)
    case (1 raw)
    show ?case
    proof (cases "raw < 0")
      case True
      have "add_while_negative_spec raw = add_while_negative_spec (raw + 2 ^ 33)"
        using True by (subst add_while_negative_spec.simps) simp
      moreover have "(raw + 2 ^ 33) mod 2 ^ 33 = raw mod 2 ^ 33"
        by simp
      ultimately show ?thesis
        using "1.IH" [OF True] by (simp only:)
    next
      case False
      then have "add_while_negative_spec raw = raw"
        by (subst add_while_negative_spec.simps) simp
      then show ?thesis
        by (simp only:)
    qed
  qed
  then show ?thesis
    by (simp only: time_to_pcr_spec_def Let_def)
qed

text \<open>
  C7.  \<open>ConvertTimeToPcr\<close> returns \<open>clock_pcr + (time - clock_time) * 90\<close> normalised as the
  spec says (add \<open>2^33\<close> while negative, then reduce modulo \<open>2^33\<close>), the \<open>int64_t\<close> values
  read as integers; that is the raw value modulo \<open>2^33\<close>.  When the time is the clock
  time the result is \<open>clock_pcr mod 2^33\<close>, for every clock PCR.
\<close>

theorem ConvertTimeToPcr_normalized:
  "sint (ConvertTimeToPcr opt time)
     = time_to_pcr_spec (sint time) (sint (clock_time opt)) (sint (clock_pcr opt))
   \<and> sint (ConvertTimeToPcr opt time)
     = (sint (clock_pcr opt) + (sint time - sint (clock_time opt)) * 90) mod 2 ^ 33
   \<and> sint (ConvertTimeToPcr (opt\<lparr>clock_time := t\<rparr>) t) = sint (clock_pcr opt) mod 2 ^ 33"
proof -
  have main: "sint (ConvertTimeToPcr o' tm)
      = (sint (clock_pcr o') + (sint tm - sint (clock_time o')) * 90) mod 2 ^ 33" for o' tm
  proof -
    let ?raw = "clock_pcr o' + (tm - clock_time o') * kPcrTicksPerMs"
    have "sint (ConvertTimeToPcr o' tm) = sint (add_while_negative ?raw) mod 2 ^ 33"
      unfolding ConvertTimeToPcr_def Let_def
      by (rule sint_int64_rem_kPcrUpperBound) (rule sint_add_while_negative_nonneg)
    also have "\<dots> = sint ?raw mod 2 ^ 33"
      by (rule sint_add_while_negative_mod)
    also have "\<dots> = (sint (clock_pcr o') + (sint tm - sint (clock_time o')) * 90) mod 2 ^ 33"
      by (rule raw_pcr_mod33)
    finally show ?thesis .
  qed
  have same: "sint (ConvertTimeToPcr (opt\<lparr>clock_time := t\<rparr>) t) = sint (clock_pcr opt) mod 2 ^ 33"
    using main [of "opt\<lparr>clock_time := t\<rparr>" t] by simp
  show ?thesis
    using main [of opt time] same by (simp only: time_to_pcr_spec_eq_mod simp_thms)
qed

theorem ConvertTimeToPcr_normalized_witness:
  "sint (ConvertTimeToPcr
      \<lparr>sid = 1, eid = 2, clock_pcr = 100, clock_time = 5, start_margin = 0, end_margin = 0,
       pre_streaming = False\<rparr> 0) = 8589934242"
  using ConvertTimeToPcr_normalized
    [of "\<lparr>sid = 1, eid = 2, clock_pcr = 100, clock_time = 5, start_margin = 0, end_margin = 0,
          pre_streaming = False\<rparr>" 0 0]
  by simp

text \<open>
  What \<open>ComparePcr\<close> returns on 33-bit values: the difference when it is below \<open>2^32\<close>, the
  difference minus \<open>2^33\<close> otherwise.  So the two orders have opposite results when the
  values are less than \<open>2^32\<close> apart, and both orders are negative when they are \<open>2^32\<close> or
  more apart.
\<close>

lemma sint_in_range:
  "- (2 ^ 63) \<le> x \<Longrightarrow> x < 2 ^ 63 \<Longrightarrow> signed_take_bit 63 (x::int) = x"
  by (rule signed_take_bit_int_eq_self) simp_all

lemma sint_std_abs:
  fixes x :: int64_t
  assumes "- (2 ^ 63) < sint x"
  shows "sint (std_abs x) = \<bar>sint x\<bar>"
proof (cases "sint x < 0")
  case True
  have hi: "sint x < 2 ^ 63"
    using sint_lt [of x] by simp
  have "sint (- x) = signed_take_bit 63 (- sint x)"
    by (simp add: sint_word_ariths)
  also have "\<dots> = - sint x"
    using assms hi by (intro sint_in_range) simp_all
  finally show ?thesis
    using True by (simp add: std_abs_def word_sless_alt)
next
  case False
  then show ?thesis
    by (simp add: std_abs_def word_sless_alt)
qed

lemma sint_ComparePcr:
  fixes a b :: int64_t
  assumes a: "0 \<le> sint a" "sint a < 2 ^ 33" and b: "0 \<le> sint b" "sint b < 2 ^ 33"
  shows "sint (ComparePcr a b) =
           (if sint a - sint b < 2 ^ 32 then sint a - sint b else sint a - sint b - 2 ^ 33)"
proof -
  let ?d = "sint a - sint b"
  have d: "sint (a - b) = ?d"
  proof -
    have "sint (a - b) = signed_take_bit 63 ?d"
      by (simp add: sint_word_ariths)
    also have "\<dots> = ?d"
      using a b by (intro sint_in_range) simp_all
    finally show ?thesis .
  qed
  have u: "sint (kPcrUpperBound + b) = 2 ^ 33 + sint b"
  proof -
    have "sint (kPcrUpperBound + b) = signed_take_bit 63 (2 ^ 33 + sint b)"
      by (simp add: sint_word_ariths kPcrUpperBound_def)
    also have "\<dots> = 2 ^ 33 + sint b"
      using b by (intro sint_in_range) simp_all
    finally show ?thesis .
  qed
  have e: "sint (a - (kPcrUpperBound + b)) = ?d - 2 ^ 33"
  proof -
    have "sint (a - (kPcrUpperBound + b)) = signed_take_bit 63 (sint a - (2 ^ 33 + sint b))"
      by (simp add: sint_word_diff u)
    also have "\<dots> = sint a - (2 ^ 33 + sint b)"
      using a b by (intro sint_in_range) simp_all
    finally show ?thesis
      by simp
  qed
  have ad: "sint (std_abs (a - b)) = \<bar>?d\<bar>"
    using a b d sint_std_abs [of "a - b"] by simp
  have ae: "sint (std_abs (a - (kPcrUpperBound + b))) = 2 ^ 33 - ?d"
    using a b e sint_std_abs [of "a - (kPcrUpperBound + b)"] by simp
  have cmp: "(std_abs (a - b) <s std_abs (a - (kPcrUpperBound + b))) = (?d < 2 ^ 32)"
    unfolding word_sless_alt ad ae using a b by auto
  show ?thesis
    unfolding ComparePcr_def Let_def cmp using d e by simp
qed

lemma ComparePcr_antisymmetric_within_half:
  fixes a b :: int64_t
  assumes a: "0 \<le> sint a" "sint a < 2 ^ 33" and b: "0 \<le> sint b" "sint b < 2 ^ 33"
    and near: "\<bar>sint a - sint b\<bar> < 2 ^ 32"
  shows "sint (ComparePcr a b) = - sint (ComparePcr b a)"
  using near by (auto simp: sint_ComparePcr [OF a b] sint_ComparePcr [OF b a])

lemma ComparePcr_both_negative_beyond_half:
  fixes a b :: int64_t
  assumes a: "0 \<le> sint a" "sint a < 2 ^ 33" and b: "0 \<le> sint b" "sint b < 2 ^ 33"
    and far: "2 ^ 32 \<le> \<bar>sint a - sint b\<bar>"
  shows "sint (ComparePcr a b) < 0 \<and> sint (ComparePcr b a) < 0"
  using far a b by (auto simp: sint_ComparePcr [OF a b] sint_ComparePcr [OF b a])

text \<open>
  C4.  The code at \<open>lhs = 10\<close>, \<open>rhs = 2^33 - 10\<close>: twenty ticks after the wrap,
  \<open>ComparePcr\<close> returns \<open>20 - 2^33\<close>, a negative value, and in the other order it returns
  \<open>-20\<close>, negative as well.
\<close>

theorem ComparePcr_after_wrap_negative:
  "sint (ComparePcr 10 (kPcrUpperBound - 10)) = 20 - 2 ^ 33
   \<and> sint (ComparePcr (kPcrUpperBound - 10) 10) = - 20"
  by (simp add: ComparePcr_def kPcrUpperBound_def std_abs_def word_sless_alt Let_def)

section \<open>Frame lemmas of the filter\<close>

lemma sink_only_refl: "sink_only s s"
  by (simp add: sink_only_def)

lemma sink_only_trans: "sink_only s t \<Longrightarrow> sink_only t u \<Longrightarrow> sink_only s u"
  unfolding sink_only_def
  by (cases s, cases t, cases u) simp

lemma sink_only_buffers: "sink_only s t \<Longrightarrow> sink_and_buffers s t"
  unfolding sink_only_def sink_and_buffers_def
  by (cases s, cases t) simp

lemma sink_and_buffers_refl: "sink_and_buffers s s"
  by (simp add: sink_and_buffers_def)

lemma sink_and_buffers_trans:
  "sink_and_buffers s t \<Longrightarrow> sink_and_buffers t u \<Longrightarrow> sink_and_buffers s u"
  unfolding sink_and_buffers_def
  by (cases s, cases t, cases u) simp

lemma sink_and_buffers_gating: "sink_and_buffers s t \<Longrightarrow> gating_kept s t"
  unfolding gating_kept_def sink_and_buffers_def
  by (cases s, cases t) simp

lemma sink_and_buffers_state: "sink_and_buffers s t \<Longrightarrow> state t = state s"
  unfolding sink_and_buffers_def
  by (cases s, cases t) simp

lemma gating_kept_refl: "gating_kept s s"
  by (simp add: gating_kept_def)

lemma gating_kept_trans: "gating_kept s t \<Longrightarrow> gating_kept t u \<Longrightarrow> gating_kept s u"
  unfolding gating_kept_def
  by (cases s, cases t, cases u) simp

lemma gating_kept_fields:
  assumes "gating_kept s t"
  shows "option t = option s" and "demux_pids t = demux_pids s" and "pmt_pid t = pmt_pid s"
    and "pcr_pid t = pcr_pid s" and "start_pcr t = start_pcr s" and "end_pcr t = end_pcr s"
    and "pcr_pid_ready t = pcr_pid_ready s" and "pcr_range_ready t = pcr_range_ready s"
    and "stop t = stop s"
  using assms unfolding gating_kept_def
  by (cases s, cases t, simp)+

lemma sink_HandlePacket_sink_only: "sink_only s (snd (sink_HandlePacket p s))"
  by (simp add: sink_HandlePacket_def sink_only_def split: option.split)

lemma send_pat_packets_sink_only: "sink_only s (snd (send_pat_packets ps s))"
proof (induction ps arbitrary: s)
  case Nil
  show ?case by (simp add: sink_only_refl)
next
  case (Cons p ps)
  obtain ok s1 where h: "sink_HandlePacket p s = (ok, s1)"
    by (cases "sink_HandlePacket p s")
  have a: "sink_only s s1"
    using sink_HandlePacket_sink_only [of s p] h by simp
  show ?case
  proof (cases ok)
    case True
    then show ?thesis
      using h a Cons.IH [of s1] by (auto intro: sink_only_trans)
  next
    case False
    then show ?thesis
      using h a by simp
  qed
qed

lemma pmt_loop_body_frame: "sink_and_buffers s (snd (pmt_loop_body p s))"
proof -
  obtain ok s1 where h: "sink_HandlePacket p s = (ok, s1)"
    by (cases "sink_HandlePacket p s")
  have a: "sink_only s s1"
    using sink_HandlePacket_sink_only [of s p] h by simp
  then have b: "sink_and_buffers s s1"
    by (rule sink_only_buffers)
  have c: "sink_and_buffers s1 (s1\<lparr>last_pmt_packets := []\<rparr>)"
    by (cases s1) (simp add: sink_and_buffers_def)
  show ?thesis
    using h b c by (auto simp: pmt_loop_body_def intro: sink_and_buffers_trans)
qed

lemma send_pmt_packets_frame: "sink_and_buffers s (snd (send_pmt_packets ps s))"
proof (induction ps arbitrary: s)
  case Nil
  show ?case by (simp add: sink_and_buffers_refl)
next
  case (Cons p ps)
  obtain ok s1 where h: "pmt_loop_body p s = (ok, s1)"
    by (cases "pmt_loop_body p s")
  have a: "sink_and_buffers s s1"
    using pmt_loop_body_frame [of s p] h by simp
  show ?case
  proof (cases ok)
    case True
    then show ?thesis
      using h a Cons.IH [of s1] by (auto intro: sink_and_buffers_trans)
  next
    case False
    then show ?thesis
      using h a by simp
  qed
qed

lemma save_psi_packet_frame: "sink_and_buffers s (save_psi_packet p s)"
  by (cases s) (simp add: save_psi_packet_def sink_and_buffers_def Let_def)


lemma send_pending_packets_frame:
  assumes "send_pending_packets p s = Inr (r, s')"
  shows "gating_kept s s'"
proof -
  obtain ok t where pat: "send_pat_packets (last_pat_packets s) s = (ok, t)"
    by (cases "send_pat_packets (last_pat_packets s) s")
  have st: "sink_only s t"
    using send_pat_packets_sink_only [of s "last_pat_packets s"] pat by simp
  define s1 where "s1 = (if \<not> pre_streaming (option s) then t\<lparr>last_pat_packets := []\<rparr> else s)"
  have g1: "gating_kept s s1"
  proof -
    have "sink_and_buffers t (t\<lparr>last_pat_packets := []\<rparr>)"
      by (cases t) (simp add: sink_and_buffers_def)
    then have "sink_and_buffers s (t\<lparr>last_pat_packets := []\<rparr>)"
      using st by (blast intro: sink_and_buffers_trans sink_only_buffers)
    then show ?thesis
      unfolding s1_def by (simp add: sink_and_buffers_gating gating_kept_refl)
  qed
  obtain ok2 s2 where pmt: "send_pmt_packets (last_pmt_packets s1) s1 = (ok2, s2)"
    by (cases "send_pmt_packets (last_pmt_packets s1) s1")
  have g2: "gating_kept s1 s2"
    using send_pmt_packets_frame [of s1 "last_pmt_packets s1"] pmt
    by (simp add: sink_and_buffers_gating)
  have g3: "gating_kept s2 (snd (sink_HandlePacket p (s2\<lparr>state := kStreaming\<rparr>)))"
  proof -
    have "gating_kept s2 (s2\<lparr>state := kStreaming\<rparr>)"
      by (cases s2) (simp add: gating_kept_def)
    moreover have "gating_kept (s2\<lparr>state := kStreaming\<rparr>)
        (snd (sink_HandlePacket p (s2\<lparr>state := kStreaming\<rparr>)))"
      by (intro sink_and_buffers_gating sink_only_buffers sink_HandlePacket_sink_only)
    ultimately show ?thesis
      by (rule gating_kept_trans)
  qed
  have gt: "gating_kept s t"
    using st by (intro sink_and_buffers_gating sink_only_buffers)
  show ?thesis
  proof (cases "pre_streaming (option s)")
    case True
    then have s1: "s1 = s" by (simp add: s1_def)
    from assms True pmt s1 have "s' = s2 \<or> s' = snd (sink_HandlePacket p (s2\<lparr>state := kStreaming\<rparr>))"
      by (auto simp: send_pending_packets_def split: if_splits prod.splits)
    then show ?thesis
      using g1 g2 g3 by (auto intro: gating_kept_trans)
  next
    case False
    then have s1: "s1 = t\<lparr>last_pat_packets := []\<rparr>" by (simp add: s1_def)
    from assms False pat pmt s1
    have "s' = t \<or> s' = s2 \<or> s' = snd (sink_HandlePacket p (s2\<lparr>state := kStreaming\<rparr>))"
      by (auto simp: send_pending_packets_def split: if_splits prod.splits)
    then show ?thesis
      using gt g1 g2 g3 by (auto intro: gating_kept_trans)
  qed
qed

lemma WaitReady_frame:
  assumes "WaitReady p s = Inr (r, s')"
  shows "gating_kept s s'"
proof -
  let ?s1 = "save_psi_packet p s"
  have a: "gating_kept s ?s1"
    by (intro sink_and_buffers_gating save_psi_packet_frame)
  have b: "gating_kept s (snd (sink_HandlePacket p s))"
    by (intro sink_and_buffers_gating sink_only_buffers sink_HandlePacket_sink_only)
  from assms have "s' = s \<or> s' = snd (sink_HandlePacket p s) \<or> s' = ?s1
      \<or> send_pending_packets p ?s1 = Inr (r, s')"
    by (auto simp: WaitReady_def Let_def split: if_splits option.splits)
  then show ?thesis
    using a b send_pending_packets_frame [of p ?s1 r s']
    by (auto intro: gating_kept_trans gating_kept_refl)
qed

lemma DoStreaming_sink_only: "sink_only s (snd (DoStreaming p s))"
  by (simp add: DoStreaming_def Let_def sink_only_refl sink_HandlePacket_sink_only
      split: option.split)

lemma UpdatePcrRange_frame: "tables_frame s (UpdatePcrRange e s)"
  by (simp add: UpdatePcrRange_def tables_frame_def Let_def)

lemma HandleEit_frame: "tables_frame s (HandleEit table s)"
  using UpdatePcrRange_frame
  by (simp add: HandleEit_def Let_def) (simp add: tables_frame_def)

lemma HandlePmt_frame: "tables_frame s (HandlePmt table s)"
  by (simp add: HandlePmt_def tables_frame_def Let_def)

lemma HandlePat_frame: "HandlePat table s = Inr s' \<Longrightarrow> tables_frame s s'"
  by (auto simp: HandlePat_def tables_frame_def Let_def split: if_splits option.splits)

lemma handleTable_frame: "handleTable table s = Inr s' \<Longrightarrow> tables_frame s s'"
  using HandlePat_frame [of table s s'] HandlePmt_frame [of s table] HandleEit_frame [of s table]
  by (auto simp: handleTable_def tables_frame_def split: if_splits)

lemma tables_frame_trans: "tables_frame s t \<Longrightarrow> tables_frame t u \<Longrightarrow> tables_frame s u"
  by (simp add: tables_frame_def)

lemma feedPacket_frame: "feedPacket tables s = Inr s' \<Longrightarrow> tables_frame s s'"
proof (induction tables arbitrary: s)
  case Nil
  then show ?case by (simp add: tables_frame_def)
next
  case (Cons table tables)
  from Cons.prems obtain s1 where h: "handleTable table s = Inr s1" and r: "feedPacket tables s1 = Inr s'"
    by (auto split: sum.splits)
  show ?case
    using handleTable_frame [OF h] Cons.IH [OF r] by (rule tables_frame_trans)
qed

lemma sink_only_fields:
  assumes "sink_only s t"
  shows "state t = state s" and "gating_kept s t"
  using assms sink_and_buffers_state [of s t] sink_only_buffers [of s t]
    sink_and_buffers_gating [of s t]
  by simp_all

lemma HandlePacket_no_sink:
  "sink s = None \<Longrightarrow> HandlePacket p tables s = Inr (False, s)"
  by (simp add: HandlePacket_def)

lemma HandlePacket_stopped:
  assumes "stop s" and "HandlePacket p tables s = Inr (r, s')"
  shows "\<not> r \<and> sink s' = sink s \<and> stop s'"
proof (cases "sink s = None")
  case True
  then show ?thesis
    using assms by (simp add: HandlePacket_def)
next
  case False
  with assms(2) obtain s1 where f: "feedPacket tables s = Inr s1"
    and g: "(case state s1 of kWaitReady \<Rightarrow> WaitReady p s1
             | kStreaming \<Rightarrow> Inr (DoStreaming p s1)) = Inr (r, s')"
    by (auto simp: HandlePacket_def split: sum.splits)
  have st: "stop s1" and sk: "sink s1 = sink s"
    using feedPacket_frame [OF f] assms(1) by (simp_all add: tables_frame_def)
  from g st have "r = False \<and> s' = s1"
    by (cases "state s1") (auto simp: WaitReady_def DoStreaming_def)
  then show ?thesis
    using st sk by simp
qed

lemma HandlePacket_no_reset:
  assumes "HandlePacket p tables s = Inr (r, s')"
  shows "no_reset s s'"
proof (cases "sink s = None")
  case True
  then show ?thesis
    using assms by (simp add: HandlePacket_def no_reset_def)
next
  case False
  with assms obtain s1 where f: "feedPacket tables s = Inr s1"
    and g: "(case state s1 of kWaitReady \<Rightarrow> WaitReady p s1
             | kStreaming \<Rightarrow> Inr (DoStreaming p s1)) = Inr (r, s')"
    by (auto simp: HandlePacket_def split: sum.splits)
  have tf: "tables_frame s s1"
    by (rule feedPacket_frame [OF f])
  have gk: "gating_kept s1 s'" and st: "state s1 = kStreaming \<longrightarrow> state s' = kStreaming"
  proof -
    show "gating_kept s1 s'"
    proof (cases "state s1")
      case kWaitReady
      then show ?thesis using g WaitReady_frame by simp
    next
      case kStreaming
      then have "s' = snd (DoStreaming p s1)" using g by auto
      then show ?thesis using DoStreaming_sink_only [of s1 p] by (simp add: sink_only_fields)
    qed
    show "state s1 = kStreaming \<longrightarrow> state s' = kStreaming"
    proof
      assume a: "state s1 = kStreaming"
      then have "s' = snd (DoStreaming p s1)" using g by auto
      then show "state s' = kStreaming"
        using DoStreaming_sink_only [of s1 p] a by (simp add: sink_only_fields)
    qed
  qed
  show ?thesis
    using tf st gating_kept_fields [OF gk] by (simp add: no_reset_def tables_frame_def)
qed

lemma no_reset_trans: "no_reset s t \<Longrightarrow> no_reset t u \<Longrightarrow> no_reset s u"
  by (simp add: no_reset_def)

lemma HandlePackets_no_reset:
  "HandlePackets calls s = Inr (rs, s') \<Longrightarrow> no_reset s s'"
proof (induction calls arbitrary: s rs)
  case Nil
  then show ?case by (simp add: no_reset_def)
next
  case (Cons c calls)
  obtain p tables where c: "c = (p, tables)" by (cases c)
  from Cons.prems c obtain r s1 rs1 where h: "HandlePacket p tables s = Inr (r, s1)"
    and t: "HandlePackets calls s1 = Inr (rs1, s')"
    by (auto split: sum.splits prod.splits)
  show ?case
    using HandlePacket_no_reset [OF h] Cons.IH [OF t] by (rule no_reset_trans)
qed

lemma HandlePacket_stopped_no_table:
  "stop s \<Longrightarrow> HandlePacket p [] s = Inr (False, s)"
  by (cases "state s") (simp_all add: HandlePacket_def WaitReady_def DoStreaming_def)

lemma Tracker_handleTable_done:
  "tracker_done t \<Longrightarrow> tracker_done (Tracker_handleTable U table t)"
  by (simp add: Tracker_handleTable_def Tracker_HandleEit_def WriteEventInfo_def
      FeedDocument_def Let_def)

lemma Tracker_feedPacket_done:
  "tracker_done t \<Longrightarrow> tracker_done (Tracker_feedPacket U tables t)"
  by (induction tables arbitrary: t) (simp_all add: Tracker_handleTable_done)

section \<open>Evaluating the example stream\<close>

lemmas example_defs =
  example_option_def example_sink_def pat_packet_def pmt_packet_def eit_packet_def
  pcr_packet_def video_packet_def no_PAT_def no_PMT_def no_EIT_def pat_table_def
  pmt_table_def eit_table_def target_event_def example_start_def example_calls_def
  example_ready_def example_streaming_def example_stopped_def

lemmas long_pmt_defs =
  long_pmt_packet1_def long_pmt_packet2_def long_pmt_calls_def long_pmt_ready_def
  long_pmt_streaming_def

lemmas filter_defs =
  HandlePacket_def WaitReady_def DoStreaming_def handleTable_def HandlePat_def HandlePmt_def
  HandleEit_def UpdatePcrRange_def save_psi_packet_def send_pending_packets_def
  pmt_loop_body_def sink_HandlePacket_def ProgramFilter_new_def Connect_def
  PID_PAT_def PID_EIT_def PID_NULL_def TID_PAT_def TID_PMT_def TID_EIT_PF_ACT_def Let_def

lemmas pcr_defs =
  ComparePcr_def std_abs_def ConvertTimeToPcr_def int64_rem_def kPcrTicksPerMs_def
  kPcrUpperBound_def MilliSecPerSec_def word_sless_alt word_sle_eq smod_int_alt_def
  add_while_negative_done add_while_negative_again

lemma example_ready_reached:
  "HandlePackets example_calls (example_start False) = Inr ([True, True, True], example_ready False)"
  "HandlePackets example_calls (example_start True) = Inr ([True, True, True], example_ready True)"
  by (simp_all add: example_defs filter_defs pcr_defs)


lemma example_streaming_reached:
  "HandlePacket (pcr_packet 0) [] (example_ready False) = Inr (True, example_streaming)"
  by (simp add: example_defs filter_defs pcr_defs)

lemma example_stopped_reached:
  "HandlePackets [(video_packet, []), (eit_packet, [eit_table []])] example_streaming
     = Inr ([True, False], example_stopped)"
  by (simp add: example_defs filter_defs pcr_defs)


lemma long_pmt_streaming_reached:
  "HandlePacket (pcr_packet 0) [] long_pmt_ready = Inr (True, long_pmt_streaming)"
  by (simp add: example_defs long_pmt_defs filter_defs pcr_defs)

lemma accepting_sink_HandlePacket:
  assumes "sink s = Some k" and "\<forall>h p. answer k h p"
  shows "sink_HandlePacket p s = (True, s\<lparr>sink := Some (k\<lparr>received := received k @ [p]\<rparr>)\<rparr>)"
  using assms by (simp add: sink_HandlePacket_def)

lemma accepting_send_pat_packets:
  assumes "sink s = Some k" and "\<forall>h p. answer k h p"
  shows "send_pat_packets ps s = (True, s\<lparr>sink := Some (k\<lparr>received := received k @ ps\<rparr>)\<rparr>)"
  using assms
proof (induction ps arbitrary: s k)
  case Nil
  then show ?case by simp
next
  case (Cons p ps)
  let ?k1 = "k\<lparr>received := received k @ [p]\<rparr>"
  let ?s1 = "s\<lparr>sink := Some ?k1\<rparr>"
  have h: "sink_HandlePacket p s = (True, ?s1)"
    using Cons.prems by (rule accepting_sink_HandlePacket)
  have "send_pat_packets ps ?s1 = (True, ?s1\<lparr>sink := Some (?k1\<lparr>received := received ?k1 @ ps\<rparr>)\<rparr>)"
    using Cons.prems by (intro Cons.IH) simp_all
  then show ?case
    using h by simp
qed

lemma accepting_send_pmt_packets:
  assumes "sink s = Some k" and "\<forall>h p. answer k h p"
  shows "send_pmt_packets ps s =
           (True, s\<lparr>sink := Some (k\<lparr>received := received k @ ps\<rparr>),
                    last_pmt_packets := (if ps = [] then last_pmt_packets s else [])\<rparr>)"
  using assms
proof (induction ps arbitrary: s k)
  case Nil
  then show ?case by simp
next
  case (Cons p ps)
  let ?k1 = "k\<lparr>received := received k @ [p]\<rparr>"
  let ?s1 = "s\<lparr>sink := Some ?k1, last_pmt_packets := []\<rparr>"
  have h: "pmt_loop_body p s = (True, ?s1)"
    using accepting_sink_HandlePacket [OF Cons.prems] by (simp add: pmt_loop_body_def)
  have "send_pmt_packets ps ?s1 =
      (True, ?s1\<lparr>sink := Some (?k1\<lparr>received := received ?k1 @ ps\<rparr>),
                   last_pmt_packets := (if ps = [] then last_pmt_packets ?s1 else [])\<rparr>)"
    using Cons.prems by (intro Cons.IH) simp_all
  then show ?case
    using h by simp
qed

lemma accepting_send_pending_packets:
  assumes k: "sink s = Some k" and acc: "\<forall>h p. answer k h p"
    and pat: "pre_streaming (option s) \<or> last_pat_packets s \<noteq> []"
  shows "send_pending_packets packet s =
     Inr (True,
       s\<lparr>sink := Some (k\<lparr>received := received k
                 @ (if pre_streaming (option s) then [] else last_pat_packets s)
                 @ last_pmt_packets s @ [packet]\<rparr>),
         last_pat_packets := (if pre_streaming (option s) then last_pat_packets s else []),
         last_pmt_packets := [],
         state := kStreaming\<rparr>)"
proof (cases "pre_streaming (option s)")
  case True
  have pm: "send_pmt_packets (last_pmt_packets s) s =
      (True, s\<lparr>sink := Some (k\<lparr>received := received k @ last_pmt_packets s\<rparr>),
               last_pmt_packets := []\<rparr>)"
    using accepting_send_pmt_packets [OF k acc, of "last_pmt_packets s"] by (cases s) simp
  show ?thesis
    using True pm acc
    by (simp add: send_pending_packets_def sink_HandlePacket_def)
next
  case False
  let ?k1 = "k\<lparr>received := received k @ last_pat_packets s\<rparr>"
  let ?s1 = "s\<lparr>sink := Some ?k1, last_pat_packets := []\<rparr>"
  have pa: "send_pat_packets (last_pat_packets s) s = (True, s\<lparr>sink := Some ?k1\<rparr>)"
    using k acc by (rule accepting_send_pat_packets)
  have pm: "send_pmt_packets (last_pmt_packets ?s1) ?s1 =
      (True, ?s1\<lparr>sink := Some (?k1\<lparr>received := received ?k1 @ last_pmt_packets ?s1\<rparr>),
               last_pmt_packets := []\<rparr>)"
    using accepting_send_pmt_packets [of ?s1 ?k1 "last_pmt_packets ?s1"] acc by simp
  show ?thesis
    using False pat pa pm acc
    by (simp add: send_pending_packets_def sink_HandlePacket_def)
qed

section \<open>The table handlers\<close>

text \<open>
  C8.  A PAT whose source PID is not the PAT PID, or whose \<open>ts_id\<close> is 0, leaves the filter
  as it is: \<open>HandlePat\<close> returns the state unchanged, so \<open>pmt_pid\<close> and the demultiplexer's
  PIDs keep their values.  Whenever \<open>HandlePat\<close> changes \<open>pmt_pid\<close> or the demultiplexer's
  PIDs, the PAT came from the PAT PID, was valid and had a \<open>ts_id\<close> other than 0.  Such a
  PAT that lists the service removes the PMT PID tracked so far (if there is one) from the
  demultiplexer and then adds the new one.
\<close>

theorem HandlePat_skips_spurious:
  "(sourcePID table \<noteq> PID_PAT \<or> pat_ts_id (as_PAT table) = 0 \<longrightarrow> HandlePat table s = Inr s)
   \<and> (HandlePat table s = Inr s' \<and> (pmt_pid s' \<noteq> pmt_pid s \<or> demux_pids s' \<noteq> demux_pids s) \<longrightarrow>
        sourcePID table = PID_PAT \<and> pat_isValid (as_PAT table) \<and> pat_ts_id (as_PAT table) \<noteq> 0)
   \<and> (sourcePID table = PID_PAT \<and> pat_isValid (as_PAT table) \<and> pat_ts_id (as_PAT table) \<noteq> 0
        \<and> pmts (as_PAT table) (sid (option s)) = Some new_pmt_pid \<longrightarrow>
        HandlePat table s =
          Inr (s\<lparr>pmt_pid := new_pmt_pid,
                 demux_pids := insert new_pmt_pid
                   (if pmt_pid s \<noteq> PID_NULL then demux_pids s - {pmt_pid s} else demux_pids s)\<rparr>))"
proof (intro conjI impI)
  assume "sourcePID table \<noteq> PID_PAT \<or> pat_ts_id (as_PAT table) = 0"
  then show "HandlePat table s = Inr s"
    by (auto simp: HandlePat_def Let_def)
next
  assume "HandlePat table s = Inr s' \<and> (pmt_pid s' \<noteq> pmt_pid s \<or> demux_pids s' \<noteq> demux_pids s)"
  then show "sourcePID table = PID_PAT" "pat_isValid (as_PAT table)" "pat_ts_id (as_PAT table) \<noteq> 0"
    by (auto simp: HandlePat_def Let_def split: if_splits)
next
  assume "sourcePID table = PID_PAT \<and> pat_isValid (as_PAT table) \<and> pat_ts_id (as_PAT table) \<noteq> 0
        \<and> pmts (as_PAT table) (sid (option s)) = Some new_pmt_pid"
  then show "HandlePat table s =
          Inr (s\<lparr>pmt_pid := new_pmt_pid,
                 demux_pids := insert new_pmt_pid
                   (if pmt_pid s \<noteq> PID_NULL then demux_pids s - {pmt_pid s} else demux_pids s)\<rparr>)"
    by (simp add: HandlePat_def Let_def)
qed

theorem HandlePat_skips_spurious_witness:
  "HandlePat spurious_pat_table (example_ready False) = Inr (example_ready False)
   \<and> HandlePat pat_table (example_start False)
     = Inr ((example_start False)\<lparr>pmt_pid := 0x0100, demux_pids := {0x0100, 0x0000, 0x0012}\<rparr>)
   \<and> sourcePID pat_table = PID_PAT \<and> pat_isValid (as_PAT pat_table)
   \<and> pat_ts_id (as_PAT pat_table) \<noteq> 0
   \<and> HandlePat (pat_table\<lparr>as_PAT := (as_PAT pat_table)\<lparr>pmts := [1 \<mapsto> 0x0101]\<rparr>\<rparr>)
         (example_ready False)
     = Inr ((example_ready False)\<lparr>pmt_pid := 0x0101, demux_pids := {0x0101, 0x0000, 0x0012}\<rparr>)"
proof -
  let ?t2 = "pat_table\<lparr>as_PAT := (as_PAT pat_table)\<lparr>pmts := [1 \<mapsto> 0x0101]\<rparr>\<rparr>"
  let ?s1 = "(example_start False)\<lparr>pmt_pid := 0x0100, demux_pids := {0x0100, 0x0000, 0x0012}\<rparr>"
  have a: "sourcePID spurious_pat_table \<noteq> PID_PAT \<or> pat_ts_id (as_PAT spurious_pat_table) = 0"
    by (simp add: example_defs spurious_pat_table_def PID_PAT_def)
  have run: "HandlePat pat_table (example_start False) = Inr ?s1"
    by (simp add: example_defs spurious_pat_table_def filter_defs insert_commute)
  have b: "HandlePat pat_table (example_start False) = Inr ?s1
      \<and> (pmt_pid ?s1 \<noteq> pmt_pid (example_start False)
           \<or> demux_pids ?s1 \<noteq> demux_pids (example_start False))"
    using run by (simp add: example_defs spurious_pat_table_def filter_defs)
  have c: "sourcePID ?t2 = PID_PAT \<and> pat_isValid (as_PAT ?t2) \<and> pat_ts_id (as_PAT ?t2) \<noteq> 0
      \<and> pmts (as_PAT ?t2) (sid (option (example_ready False))) = Some 0x0101"
    by (simp add: example_defs spurious_pat_table_def PID_PAT_def)
  note i1 = HandlePat_skips_spurious
    [where table = spurious_pat_table and s = "example_ready False", THEN conjunct1, THEN mp, OF a]
  note i2 = HandlePat_skips_spurious
    [where table = pat_table and s = "example_start False" and s' = ?s1,
      THEN conjunct2, THEN conjunct1, THEN mp, OF b]
  note i3 = HandlePat_skips_spurious
    [where table = ?t2 and s = "example_ready False" and new_pmt_pid = "0x0101",
      THEN conjunct2, THEN conjunct2, THEN mp, OF c]
  have d: "(example_ready False)
        \<lparr>pmt_pid := 0x0101,
         demux_pids := insert 0x0101
           (if pmt_pid (example_ready False) \<noteq> PID_NULL
            then demux_pids (example_ready False) - {pmt_pid (example_ready False)}
            else demux_pids (example_ready False))\<rparr>
      = (example_ready False)\<lparr>pmt_pid := 0x0101, demux_pids := {0x0101, 0x0000, 0x0012}\<rparr>"
    by (simp add: example_defs spurious_pat_table_def PID_NULL_def)
  from i1 i2 i3 run d show ?thesis
    by simp
qed

text \<open>
  C5.  A valid EIT present/following (actual) for the target service, filter and tracker
  looking for the same service and event.  With no event, the filter sets \<open>stop\<close> and the
  tracker sets \<open>done\<close>; from then on \<open>HandlePacket\<close> of the filter never returns true (with
  no table completing it returns false and changes nothing), and \<open>HandlePacket\<close> of the
  tracker returns false.  When the target is not the present event and there is no
  following event, or the following event is not the target either, the tracker sets
  \<open>done\<close>; the filter sets \<open>stop\<close> in state \<open>kWaitReady\<close> and is left unchanged in state
  \<open>kStreaming\<close>.
\<close>

theorem EIT_without_target_event:
  assumes "eit_isValid (as_EIT table)"
    and "eit_service_id (as_EIT table) = sid (option s)"
    and "tracker_sid (tracker_option t) = sid (option s)"
    and "tracker_eid (tracker_option t) = eid (option s)"
  shows "(events (as_EIT table) = [] \<longrightarrow>
            stop (HandleEit table s)
          \<and> tracker_done (Tracker_HandleEit U table t)
          \<and> (\<forall>p tables s'. HandlePacket p tables (HandleEit table s) \<noteq> Inr (True, s'))
          \<and> (\<forall>p. HandlePacket p [] (HandleEit table s) = Inr (False, HandleEit table s))
          \<and> (\<forall>p tables. \<not> fst (Tracker_HandlePacket U p tables (Tracker_HandleEit U table t))))
       \<and> (events (as_EIT table) \<noteq> []
          \<and> event_id (events (as_EIT table) ! 0) \<noteq> eid (option s)
          \<and> (length (events (as_EIT table)) < 2
               \<or> event_id (events (as_EIT table) ! 1) \<noteq> eid (option s)) \<longrightarrow>
            tracker_done (Tracker_HandleEit U table t)
          \<and> (state s = kWaitReady \<longrightarrow> stop (HandleEit table s))
          \<and> (state s = kStreaming \<longrightarrow> HandleEit table s = s))"
proof (intro conjI impI)
  assume e: "events (as_EIT table) = []"
  show st: "stop (HandleEit table s)"
    using assms e by (simp add: HandleEit_def Let_def)
  show dn: "tracker_done (Tracker_HandleEit U table t)"
    using assms e by (simp add: Tracker_HandleEit_def Let_def)
  show "\<forall>p tables s'. HandlePacket p tables (HandleEit table s) \<noteq> Inr (True, s')"
    using HandlePacket_stopped [OF st] by blast
  show "\<forall>p. HandlePacket p [] (HandleEit table s) = Inr (False, HandleEit table s)"
    using HandlePacket_stopped_no_table [OF st] by blast
  show "\<forall>p tables. \<not> fst (Tracker_HandlePacket U p tables (Tracker_HandleEit U table t))"
    using Tracker_feedPacket_done [OF dn] by (simp add: Tracker_HandlePacket_def Let_def)
next
  assume a: "events (as_EIT table) \<noteq> []
          \<and> event_id (events (as_EIT table) ! 0) \<noteq> eid (option s)
          \<and> (length (events (as_EIT table)) < 2
               \<or> event_id (events (as_EIT table) ! 1) \<noteq> eid (option s))"
  show "tracker_done (Tracker_HandleEit U table t)"
    using assms a by (auto simp: Tracker_HandleEit_def Let_def)
  show "stop (HandleEit table s)" if "state s = kWaitReady"
    using assms a that by (auto simp: HandleEit_def Let_def)
  show "HandleEit table s = s" if "state s = kStreaming"
    using assms a that by (auto simp: HandleEit_def Let_def)
qed

theorem EIT_without_target_event_witness:
  "stop (HandleEit (eit_table []) (example_ready False))
   \<and> tracker_done (Tracker_HandleEit 0 (eit_table []) example_tracker)
   \<and> HandlePacket video_packet [] (HandleEit (eit_table []) (example_ready False))
        = Inr (False, HandleEit (eit_table []) (example_ready False))
   \<and> \<not> fst (Tracker_HandlePacket 0 video_packet []
              (Tracker_HandleEit 0 (eit_table []) example_tracker))
   \<and> tracker_done (Tracker_HandleEit 0 (eit_table [other_event]) example_tracker)
   \<and> stop (HandleEit (eit_table [other_event]) (example_ready False))
   \<and> HandleEit (eit_table [other_event, other_event]) example_streaming = example_streaming"
proof -
  have a: "eit_isValid (as_EIT (eit_table es))"
    "eit_service_id (as_EIT (eit_table es)) = sid (option (example_ready False))"
    "eit_service_id (as_EIT (eit_table es)) = sid (option example_streaming)"
    "tracker_sid (tracker_option example_tracker) = sid (option (example_ready False))"
    "tracker_eid (tracker_option example_tracker) = eid (option (example_ready False))"
    "tracker_sid (tracker_option example_tracker) = sid (option example_streaming)"
    "tracker_eid (tracker_option example_tracker) = eid (option example_streaming)" for es
    by (simp_all add: example_defs example_tracker_def other_event_def AirtimeTracker_new_def)
  have e0: "events (as_EIT (eit_table [])) = []"
    by (simp add: example_defs example_tracker_def other_event_def)
  have e1: "events (as_EIT (eit_table [other_event])) \<noteq> []
      \<and> event_id (events (as_EIT (eit_table [other_event])) ! 0) \<noteq> eid (option (example_ready False))
      \<and> (length (events (as_EIT (eit_table [other_event]))) < 2
           \<or> event_id (events (as_EIT (eit_table [other_event])) ! 1)
               \<noteq> eid (option (example_ready False)))"
    by (simp add: example_defs example_tracker_def other_event_def)
  have e2: "events (as_EIT (eit_table [other_event, other_event])) \<noteq> []
      \<and> event_id (events (as_EIT (eit_table [other_event, other_event])) ! 0)
           \<noteq> eid (option example_streaming)
      \<and> (length (events (as_EIT (eit_table [other_event, other_event]))) < 2
           \<or> event_id (events (as_EIT (eit_table [other_event, other_event])) ! 1)
               \<noteq> eid (option example_streaming))"
    by (simp add: example_defs example_tracker_def other_event_def)
  have w: "state (example_ready False) = kWaitReady" and st: "state example_streaming = kStreaming"
    by (simp_all add: example_defs example_tracker_def other_event_def)
  note z = EIT_without_target_event [OF a(1) a(2) a(4) a(5), where U = 0, THEN conjunct1, THEN mp, OF e0]
  note n1 = EIT_without_target_event [OF a(1) a(2) a(4) a(5), where U = 0, THEN conjunct2, THEN mp, OF e1]
  note n2 = EIT_without_target_event [OF a(1) a(3) a(6) a(7), where U = 0, THEN conjunct2, THEN mp, OF e2]
  from z n1 n2 w st show ?thesis
    by blast
qed

section \<open>The airtime tracker's record\<close>

text \<open>
  C9.  For a valid EIT present/following (actual) of the tracker's service whose present
  event, or else whose following event, is the target, the tracker feeds exactly one
  document and changes nothing else.  The document has the members \<open>nid\<close>, \<open>tsid\<close>, \<open>sid\<close>,
  \<open>eid\<close>, \<open>startTime\<close>, \<open>duration\<close> in this order; \<open>startTime\<close> is the event's start time
  minus the Unix epoch, in milliseconds, and \<open>duration\<close> is the event's duration in seconds
  times 1000.
\<close>

theorem Tracker_emits_one_record:
  assumes "tableId table = TID_EIT_PF_ACT"
    and "eit_isValid (as_EIT table)"
    and "eit_service_id (as_EIT table) = tracker_sid (tracker_option t)"
    and "events (as_EIT table) \<noteq> []"
    and "(event_id (events (as_EIT table) ! 0) = tracker_eid (tracker_option t)
            \<and> event = events (as_EIT table) ! 0)
         \<or> (event_id (events (as_EIT table) ! 0) \<noteq> tracker_eid (tracker_option t)
            \<and> 2 \<le> length (events (as_EIT table))
            \<and> event_id (events (as_EIT table) ! 1) = tracker_eid (tracker_option t)
            \<and> event = events (as_EIT table) ! 1)"
  shows "Tracker_handleTable UnixEpoch table t =
           t\<lparr>documents := documents t @
               [[(''nid'', JsonUInt16 (onetw_id (as_EIT table))),
                 (''tsid'', JsonUInt16 (eit_ts_id (as_EIT table))),
                 (''sid'', JsonUInt16 (eit_service_id (as_EIT table))),
                 (''eid'', JsonUInt16 (event_id event)),
                 (''startTime'', JsonInt64 (start_time event - UnixEpoch)),
                 (''duration'', JsonInt64 (duration event * 1000))]]\<rparr>"
  using assms
  by (auto simp: Tracker_handleTable_def Tracker_HandleEit_def WriteEventInfo_def FeedDocument_def
      MilliSecPerSec_def Let_def)

theorem Tracker_emits_one_record_witness:
  "Tracker_handleTable 1000 (eit_table [target_event]) example_tracker
     = example_tracker\<lparr>documents :=
         [[(''nid'', JsonUInt16 4), (''tsid'', JsonUInt16 0x7FE0), (''sid'', JsonUInt16 1),
           (''eid'', JsonUInt16 0x1000), (''startTime'', JsonInt64 4000),
           (''duration'', JsonInt64 1000)]]\<rparr>
   \<and> Tracker_handleTable 1000 (eit_table [other_event, target_event]) example_tracker
     = example_tracker\<lparr>documents :=
         [[(''nid'', JsonUInt16 4), (''tsid'', JsonUInt16 0x7FE0), (''sid'', JsonUInt16 1),
           (''eid'', JsonUInt16 0x1000), (''startTime'', JsonInt64 4000),
           (''duration'', JsonInt64 1000)]]\<rparr>"
proof -
  have a: "tableId (eit_table es) = TID_EIT_PF_ACT" "eit_isValid (as_EIT (eit_table es))"
    "eit_service_id (as_EIT (eit_table es)) = tracker_sid (tracker_option example_tracker)" for es
    by (simp_all add: example_defs example_tracker_def other_event_def AirtimeTracker_new_def TID_EIT_PF_ACT_def)
  have n1: "events (as_EIT (eit_table [target_event])) \<noteq> []"
    and n2: "events (as_EIT (eit_table [other_event, target_event])) \<noteq> []"
    by (simp_all add: example_defs example_tracker_def other_event_def)
  have p: "(event_id (events (as_EIT (eit_table [target_event])) ! 0)
              = tracker_eid (tracker_option example_tracker)
            \<and> target_event = events (as_EIT (eit_table [target_event])) ! 0)
         \<or> (event_id (events (as_EIT (eit_table [target_event])) ! 0)
              \<noteq> tracker_eid (tracker_option example_tracker)
            \<and> 2 \<le> length (events (as_EIT (eit_table [target_event])))
            \<and> event_id (events (as_EIT (eit_table [target_event])) ! 1)
              = tracker_eid (tracker_option example_tracker)
            \<and> target_event = events (as_EIT (eit_table [target_event])) ! 1)"
    by (simp add: example_defs example_tracker_def other_event_def AirtimeTracker_new_def)
  have f: "(event_id (events (as_EIT (eit_table [other_event, target_event])) ! 0)
              = tracker_eid (tracker_option example_tracker)
            \<and> target_event = events (as_EIT (eit_table [other_event, target_event])) ! 0)
         \<or> (event_id (events (as_EIT (eit_table [other_event, target_event])) ! 0)
              \<noteq> tracker_eid (tracker_option example_tracker)
            \<and> 2 \<le> length (events (as_EIT (eit_table [other_event, target_event])))
            \<and> event_id (events (as_EIT (eit_table [other_event, target_event])) ! 1)
              = tracker_eid (tracker_option example_tracker)
            \<and> target_event = events (as_EIT (eit_table [other_event, target_event])) ! 1)"
    by (simp add: example_defs example_tracker_def other_event_def AirtimeTracker_new_def)
  from Tracker_emits_one_record [OF a n1 p, of 1000] Tracker_emits_one_record [OF a n2 f, of 1000]
  show ?thesis
    by (simp add: example_defs example_tracker_def other_event_def AirtimeTracker_new_def)
qed

section \<open>The control state\<close>

text \<open>
  C10.  Over any sequence of \<open>HandlePacket\<close> calls the state never goes back from
  \<open>kStreaming\<close> to \<open>kWaitReady\<close>, and \<open>stop\<close>, \<open>pcr_pid_ready\<close> and \<open>pcr_range_ready\<close>, once
  true, stay true.
\<close>

theorem control_state_monotone:
  assumes "HandlePackets calls s = Inr (rs, s')"
  shows "(state s = kStreaming \<longrightarrow> state s' = kStreaming)
       \<and> (stop s \<longrightarrow> stop s')
       \<and> (pcr_pid_ready s \<longrightarrow> pcr_pid_ready s')
       \<and> (pcr_range_ready s \<longrightarrow> pcr_range_ready s')"
  using HandlePackets_no_reset [OF assms] by (simp add: no_reset_def)

theorem control_state_monotone_witness:
  "HandlePackets [(pcr_packet 0, [])] long_pmt_ready = Inr ([True], long_pmt_streaming)
   \<and> pcr_pid_ready long_pmt_ready \<and> pcr_pid_ready long_pmt_streaming
   \<and> pcr_range_ready long_pmt_ready \<and> pcr_range_ready long_pmt_streaming
   \<and> HandlePackets [(video_packet, []), (eit_packet, [eit_table []])] example_streaming
     = Inr ([True, False], example_stopped)
   \<and> state example_streaming = kStreaming \<and> state example_stopped = kStreaming
   \<and> pcr_pid_ready example_streaming \<and> pcr_pid_ready example_stopped
   \<and> pcr_range_ready example_streaming \<and> pcr_range_ready example_stopped
   \<and> HandlePackets [(video_packet, [])] example_stopped = Inr ([False], example_stopped)
   \<and> stop example_stopped"
proof -
  have r0: "HandlePackets [(pcr_packet 0, [])] long_pmt_ready = Inr ([True], long_pmt_streaming)"
    using long_pmt_streaming_reached by simp
  have ra: "HandlePackets [(video_packet, []), (eit_packet, [eit_table []])] example_streaming
     = Inr ([True, False], example_stopped)"
    by (rule example_stopped_reached)
  have rb: "HandlePackets [(video_packet, [])] example_stopped = Inr ([False], example_stopped)"
    by (simp add: example_defs filter_defs)
  have pre: "pcr_pid_ready long_pmt_ready" "pcr_range_ready long_pmt_ready"
    "state example_streaming = kStreaming" "pcr_pid_ready example_streaming"
    "pcr_range_ready example_streaming" "stop example_stopped"
    by (simp_all add: example_defs long_pmt_defs)
  from control_state_monotone [OF r0] control_state_monotone [OF ra]
    control_state_monotone [OF rb] pre r0 ra rb
  show ?thesis
    by simp
qed

section \<open>The gating decisions\<close>

lemma ComparePcr_same: "ComparePcr x x = 0"
  by (simp add: ComparePcr_def kPcrUpperBound_def std_abs_def word_sless_alt Let_def)

lemma save_psi_packet_fields:
  "sink (save_psi_packet p s) = sink s"
  "state (save_psi_packet p s) = state s"
  "option (save_psi_packet p s) = option s"
  "stop (save_psi_packet p s) = stop s"
  "pcr_pid (save_psi_packet p s) = pcr_pid s"
  "start_pcr (save_psi_packet p s) = start_pcr s"
  "end_pcr (save_psi_packet p s) = end_pcr s"
  "pcr_pid_ready (save_psi_packet p s) = pcr_pid_ready s"
  "pcr_range_ready (save_psi_packet p s) = pcr_range_ready s"
  by (simp_all add: save_psi_packet_def Let_def)

lemma save_psi_packet_pat_nonempty:
  "last_pat_packets s \<noteq> [] \<Longrightarrow> last_pat_packets (save_psi_packet p s) \<noteq> []"
  by (simp add: save_psi_packet_def Let_def)








lemma WaitReady_enters_Streaming:
  assumes w: "WaitReady packet s = Inr (r, s')"
    and a: "state s = kWaitReady" and b: "state s' = kStreaming"
  shows "getPID packet = pcr_pid s' \<and>
         (\<exists>pcr. pcr_field packet = Some pcr
            \<and> 0 \<le>s ComparePcr pcr (start_pcr s')
            \<and> ComparePcr pcr (end_pcr s') <s 0) \<and>
         pcr_pid_ready s' \<and> pcr_range_ready s'"
proof -
  let ?s1 = "save_psi_packet packet s"
  have n1: "s' \<noteq> s" and n2: "s' \<noteq> ?s1" and n3: "s' \<noteq> snd (sink_HandlePacket packet s)"
    using a b sink_HandlePacket_sink_only [of s packet, THEN sink_only_fields(1)]
    by (auto simp: save_psi_packet_fields)
  from w n1 n2 n3 obtain pcr where p: "pcr_field packet = Some pcr"
    and rdy: "pcr_pid_ready ?s1" "pcr_range_ready ?s1"
    and pid: "getPID packet = pcr_pid ?s1"
    and e: "\<not> 0 \<le>s ComparePcr pcr (end_pcr ?s1)"
    and st: "\<not> ComparePcr pcr (start_pcr ?s1) <s 0"
    and sp: "send_pending_packets packet ?s1 = Inr (r, s')"
    by (auto simp: WaitReady_def Let_def split: if_splits option.splits)
  have g: "gating_kept ?s1 s'"
    using sp by (rule send_pending_packets_frame)
  have "0 \<le>s ComparePcr pcr (start_pcr s')" "ComparePcr pcr (end_pcr s') <s 0"
    using e st gating_kept_fields [OF g] by (simp_all add: word_sless_alt word_sle_eq)
  then show ?thesis
    using p rdy pid gating_kept_fields [OF g] by simp
qed

lemma HandlePackets_stopped:
  assumes "stop s \<or> sink s = None" and "HandlePackets calls s = Inr (rs, s')"
  shows "(\<forall>r \<in> set rs. \<not> r) \<and> sink s' = sink s \<and> length rs = length calls"
  using assms
proof (induction calls arbitrary: s rs)
  case Nil
  then show ?case by simp
next
  case (Cons c calls)
  obtain p tables where c: "c = (p, tables)" by (cases c)
  from Cons.prems(2) c obtain r s1 rs1 where h: "HandlePacket p tables s = Inr (r, s1)"
    and t: "HandlePackets calls s1 = Inr (rs1, s')" and rs: "rs = r # rs1"
    by (auto split: sum.splits prod.splits)
  have one: "\<not> r \<and> sink s1 = sink s \<and> (stop s1 \<or> sink s1 = None)"
  proof (cases "sink s = None")
    case True
    then show ?thesis
      using h by (simp add: HandlePacket_def)
  next
    case False
    then have "stop s" using Cons.prems(1) by auto
    then show ?thesis
      using HandlePacket_stopped [OF _ h] by simp
  qed
  then have "stop s1 \<or> sink s1 = None" by auto
  from Cons.IH [OF this t] one rs show ?case
    by auto
qed

text \<open>
  C1.  Whenever a call of \<open>HandlePacket\<close> takes the filter from \<open>kWaitReady\<close> to
  \<open>kStreaming\<close>, the packet is on \<open>pcr_pid\<close>, it carries a PCR, that PCR compares \<open>\<ge> 0\<close> with
  \<open>start_pcr\<close> and \<open>< 0\<close> with \<open>end_pcr\<close>, and \<open>pcr_pid_ready\<close> and \<open>pcr_range_ready\<close> hold
  (the values are those of the state after the call; sending the pending packets changes
  none of the fields the decision read, see \<open>gating_kept\<close>).  And a PCR equal to \<open>start_pcr\<close>
  starts the streaming: for a filter that, once the tables of this packet are handled,
  waits with both flags set and is not stopped, a packet on \<open>pcr_pid\<close> with PCR \<open>start_pcr\<close>,
  before \<open>end_pcr\<close>, makes \<open>HandlePacket\<close> return true in state \<open>kStreaming\<close>, given a sink
  that accepts the packets and a PAT to send (or pre-streaming, the packet not being a
  PAT packet).
\<close>

theorem Streaming_entered_only_in_window:
  "(HandlePacket packet tables s = Inr (r, s') \<and> state s = kWaitReady \<and> state s' = kStreaming \<longrightarrow>
      getPID packet = pcr_pid s' \<and> hasPCR packet \<and>
      (\<exists>pcr. pcr_field packet = Some pcr
         \<and> 0 \<le>s ComparePcr pcr (start_pcr s')
         \<and> ComparePcr pcr (end_pcr s') <s 0) \<and>
      pcr_pid_ready s' \<and> pcr_range_ready s')
   \<and> (feedPacket tables s = Inr s1 \<and> sink s = Some k \<and> (\<forall>h p. answer k h p) \<and>
      state s1 = kWaitReady \<and> \<not> stop s1 \<and> pcr_pid_ready s1 \<and> pcr_range_ready s1 \<and>
      getPID packet = pcr_pid s1 \<and> pcr_field packet = Some (start_pcr s1) \<and>
      ComparePcr (start_pcr s1) (end_pcr s1) <s 0 \<and>
      (if pre_streaming (option s1) then getPID packet \<noteq> PID_PAT
       else last_pat_packets s1 \<noteq> []) \<longrightarrow>
      (\<exists>s'. HandlePacket packet tables s = Inr (True, s') \<and> state s' = kStreaming))"
proof (intro conjI impI)
  assume h: "HandlePacket packet tables s = Inr (r, s') \<and> state s = kWaitReady \<and> state s' = kStreaming"
  then have "sink s \<noteq> None"
    by (auto simp: HandlePacket_def split: if_splits)
  with h obtain s1 where f: "feedPacket tables s = Inr s1"
    and g: "(case state s1 of kWaitReady \<Rightarrow> WaitReady packet s1
             | kStreaming \<Rightarrow> Inr (DoStreaming packet s1)) = Inr (r, s')"
    by (auto simp: HandlePacket_def split: sum.splits)
  have "state s1 = kWaitReady"
    using feedPacket_frame [OF f] h by (simp add: tables_frame_def)
  then have w: "WaitReady packet s1 = Inr (r, s')" and a: "state s1 = kWaitReady"
    using g by simp_all
  have c: "getPID packet = pcr_pid s' \<and>
         (\<exists>pcr. pcr_field packet = Some pcr
            \<and> 0 \<le>s ComparePcr pcr (start_pcr s')
            \<and> ComparePcr pcr (end_pcr s') <s 0) \<and>
         pcr_pid_ready s' \<and> pcr_range_ready s'"
    using w a h by (intro WaitReady_enters_Streaming) simp_all
  then show "getPID packet = pcr_pid s'" "pcr_pid_ready s'" "pcr_range_ready s'"
    "\<exists>pcr. pcr_field packet = Some pcr
         \<and> 0 \<le>s ComparePcr pcr (start_pcr s')
         \<and> ComparePcr pcr (end_pcr s') <s 0"
    by simp_all
  from c show "hasPCR packet"
    by (auto simp: hasPCR_def)
next
  assume h: "feedPacket tables s = Inr s1 \<and> sink s = Some k \<and> (\<forall>h p. answer k h p) \<and>
      state s1 = kWaitReady \<and> \<not> stop s1 \<and> pcr_pid_ready s1 \<and> pcr_range_ready s1 \<and>
      getPID packet = pcr_pid s1 \<and> pcr_field packet = Some (start_pcr s1) \<and>
      ComparePcr (start_pcr s1) (end_pcr s1) <s 0 \<and>
      (if pre_streaming (option s1) then getPID packet \<noteq> PID_PAT
       else last_pat_packets s1 \<noteq> [])"
  let ?s2 = "save_psi_packet packet s1"
  have k1: "sink s1 = Some k"
    using h feedPacket_frame [of tables s s1] by (simp add: tables_frame_def)
  have k2: "sink ?s2 = Some k"
    using k1 by (simp add: save_psi_packet_fields)
  have pat: "pre_streaming (option ?s2) \<or> last_pat_packets ?s2 \<noteq> []"
    using h save_psi_packet_pat_nonempty [of s1 packet]
    by (auto simp: save_psi_packet_fields split: if_splits)
  have acc: "\<forall>h p. answer k h p"
    using h by blast
  have sp: "\<exists>s'. send_pending_packets packet ?s2 = Inr (True, s') \<and> state s' = kStreaming"
    using accepting_send_pending_packets [OF k2 acc pat, of packet] by simp
  have e: "\<not> 0 \<le>s ComparePcr (start_pcr s1) (end_pcr s1)"
    using h by (simp add: word_sless_alt word_sle_eq)
  have w: "WaitReady packet s1 = send_pending_packets packet ?s2"
    using h e by (auto simp: WaitReady_def Let_def save_psi_packet_fields ComparePcr_same
        split: if_splits)
  show "\<exists>s'. HandlePacket packet tables s = Inr (True, s') \<and> state s' = kStreaming"
    using h sp w by (simp add: HandlePacket_def)
qed

theorem Streaming_entered_only_in_window_witness:
  "HandlePacket (pcr_packet 0) [] long_pmt_ready = Inr (True, long_pmt_streaming)
   \<and> state long_pmt_ready = kWaitReady \<and> state long_pmt_streaming = kStreaming
   \<and> getPID (pcr_packet 0) = pcr_pid long_pmt_streaming \<and> hasPCR (pcr_packet 0)
   \<and> (\<exists>pcr. pcr_field (pcr_packet 0) = Some pcr
         \<and> 0 \<le>s ComparePcr pcr (start_pcr long_pmt_streaming)
         \<and> ComparePcr pcr (end_pcr long_pmt_streaming) <s 0)
   \<and> pcr_pid_ready long_pmt_streaming \<and> pcr_range_ready long_pmt_streaming
   \<and> pcr_field (pcr_packet 0) = Some (start_pcr long_pmt_ready)
   \<and> (\<exists>s'. HandlePacket (pcr_packet 0) [] long_pmt_ready = Inr (True, s')
         \<and> state s' = kStreaming)"
proof -
  have run: "HandlePacket (pcr_packet 0) [] long_pmt_ready = Inr (True, long_pmt_streaming)"
    by (rule long_pmt_streaming_reached)
  have st: "state long_pmt_ready = kWaitReady" "state long_pmt_streaming = kStreaming"
    by (simp_all add: example_defs long_pmt_defs)
  have a: "HandlePacket (pcr_packet 0) [] long_pmt_ready = Inr (True, long_pmt_streaming)
      \<and> state long_pmt_ready = kWaitReady \<and> state long_pmt_streaming = kStreaming"
    using run st by simp
  have b: "feedPacket [] long_pmt_ready = Inr long_pmt_ready
      \<and> sink long_pmt_ready = Some example_sink \<and> (\<forall>h p. answer example_sink h p)
      \<and> state long_pmt_ready = kWaitReady \<and> \<not> stop long_pmt_ready
      \<and> pcr_pid_ready long_pmt_ready \<and> pcr_range_ready long_pmt_ready
      \<and> getPID (pcr_packet 0) = pcr_pid long_pmt_ready
      \<and> pcr_field (pcr_packet 0) = Some (start_pcr long_pmt_ready)
      \<and> ComparePcr (start_pcr long_pmt_ready) (end_pcr long_pmt_ready) <s 0
      \<and> (if pre_streaming (option long_pmt_ready) then getPID (pcr_packet 0) \<noteq> PID_PAT
          else last_pat_packets long_pmt_ready \<noteq> [])"
    by (simp add: example_defs long_pmt_defs pcr_defs)
  have c: "pcr_field (pcr_packet 0) = Some (start_pcr long_pmt_ready)"
    by (simp add: example_defs long_pmt_defs)
  note inst = Streaming_entered_only_in_window
    [where packet = "pcr_packet 0" and tables = "[]" and s = long_pmt_ready
       and r = True and s' = long_pmt_streaming and ?s1.0 = long_pmt_ready
       and k = example_sink]
  from inst [THEN conjunct1, THEN mp, OF a] inst [THEN conjunct2, THEN mp, OF b] run st c
  show ?thesis
    by blast
qed

text \<open>
  C6.  A packet on \<open>pcr_pid\<close> that carries no PCR, for a filter with a sink that is not
  stopped once the tables of this packet are handled.  In \<open>kWaitReady\<close> with both flags
  set (and the packet not a PAT packet forwarded live under pre-streaming),
  \<open>HandlePacket\<close> returns true and the sink receives nothing.  In \<open>kStreaming\<close> the sink
  receives the packet, and \<open>HandlePacket\<close> returns the sink's answer.
\<close>

theorem packet_without_PCR_is_not_fatal:
  assumes "feedPacket tables s = Inr s1" and "sink s = Some k" and "\<not> stop s1"
    and "getPID packet = pcr_pid s1" and "pcr_field packet = None"
  shows "(state s1 = kWaitReady \<and> pcr_pid_ready s1 \<and> pcr_range_ready s1
            \<and> \<not> (getPID packet = PID_PAT \<and> pre_streaming (option s1)) \<longrightarrow>
          HandlePacket packet tables s = Inr (True, save_psi_packet packet s1)
            \<and> forwarded (save_psi_packet packet s1) = forwarded s)
       \<and> (state s1 = kStreaming \<longrightarrow>
          HandlePacket packet tables s =
            Inr (answer k (received k) packet,
                 s1\<lparr>sink := Some (k\<lparr>received := received k @ [packet]\<rparr>)\<rparr>)
            \<and> forwarded (s1\<lparr>sink := Some (k\<lparr>received := received k @ [packet]\<rparr>)\<rparr>)
                = forwarded s @ [packet])"
proof -
  have k1: "sink s1 = Some k"
    using assms feedPacket_frame [of tables s s1] by (simp add: tables_frame_def)
  show ?thesis
  proof (intro conjI impI)
    assume h: "state s1 = kWaitReady \<and> pcr_pid_ready s1 \<and> pcr_range_ready s1
            \<and> \<not> (getPID packet = PID_PAT \<and> pre_streaming (option s1))"
    have "WaitReady packet s1 = Inr (True, save_psi_packet packet s1)"
      using assms h by (auto simp: WaitReady_def Let_def save_psi_packet_fields)
    then show "HandlePacket packet tables s = Inr (True, save_psi_packet packet s1)"
      using assms h by (simp add: HandlePacket_def)
    show "forwarded (save_psi_packet packet s1) = forwarded s"
      using assms k1 by (simp add: forwarded_def save_psi_packet_fields)
  next
    assume h: "state s1 = kStreaming"
    have "DoStreaming packet s1 =
        (answer k (received k) packet, s1\<lparr>sink := Some (k\<lparr>received := received k @ [packet]\<rparr>)\<rparr>)"
      using assms k1 by (simp add: DoStreaming_def sink_HandlePacket_def)
    then show "HandlePacket packet tables s =
            Inr (answer k (received k) packet,
                 s1\<lparr>sink := Some (k\<lparr>received := received k @ [packet]\<rparr>)\<rparr>)"
      using assms h by (simp add: HandlePacket_def)
    show "forwarded (s1\<lparr>sink := Some (k\<lparr>received := received k @ [packet]\<rparr>)\<rparr>)
                = forwarded s @ [packet]"
      using assms by (simp add: forwarded_def)
  qed
qed

theorem packet_without_PCR_is_not_fatal_witness:
  "HandlePacket packet_without_pcr [] (example_ready False) = Inr (True, example_ready False)
   \<and> forwarded (example_ready False) = []
   \<and> HandlePacket packet_without_pcr [] example_streaming
     = Inr (True, example_streaming
          \<lparr>sink := Some (example_sink
             \<lparr>received := [pat_packet, pmt_packet, pcr_packet 0,
                           packet_without_pcr]\<rparr>)\<rparr>)"
proof -
  let ?k = "example_sink\<lparr>received := [pat_packet, pmt_packet, pcr_packet 0]\<rparr>"
  have w: "feedPacket [] (example_ready False) = Inr (example_ready False)"
    "sink (example_ready False) = Some example_sink" "\<not> stop (example_ready False)"
    "getPID packet_without_pcr = pcr_pid (example_ready False)"
    "pcr_field packet_without_pcr = None"
    by (simp_all add: example_defs packet_without_pcr_def)
  have wc: "state (example_ready False) = kWaitReady \<and> pcr_pid_ready (example_ready False)
      \<and> pcr_range_ready (example_ready False)
      \<and> \<not> (getPID packet_without_pcr = PID_PAT \<and> pre_streaming (option (example_ready False)))"
    by (simp add: example_defs packet_without_pcr_def)
  have s: "feedPacket [] example_streaming = Inr example_streaming"
    "sink example_streaming = Some ?k" "\<not> stop example_streaming"
    "getPID packet_without_pcr = pcr_pid example_streaming"
    by (simp_all add: example_defs packet_without_pcr_def)
  have sc: "state example_streaming = kStreaming"
    by (simp add: example_defs packet_without_pcr_def)
  from packet_without_PCR_is_not_fatal [OF w, THEN conjunct1, THEN mp, OF wc]
    packet_without_PCR_is_not_fatal [OF s w(5), THEN conjunct2, THEN mp, OF sc]
  show ?thesis
    by (simp add: example_defs packet_without_pcr_def save_psi_packet_def PID_PAT_def PID_NULL_def forwarded_def)
qed

text \<open>
  C3, as stated, fails: in the example stream with pre-streaming, the call with the PCR
  packet at \<open>end_pcr\<close> returns false and leaves the filter as it was, and a PAT packet
  offered after that is forwarded to the sink.
\<close>

theorem forwarding_after_false_counterexample:
  "HandlePackets example_calls (example_start True)
     = Inr ([True, True, True], example_ready True)
   \<and> forwarded (example_ready True) = [pat_packet]
   \<and> HandlePacket (pcr_packet 90000) [] (example_ready True) = Inr (False, example_ready True)
   \<and> HandlePacket pat_packet [] (example_ready True)
     = Inr (True, (example_ready True)
          \<lparr>sink := Some (example_sink\<lparr>received := [pat_packet, pat_packet]\<rparr>)\<rparr>)
   \<and> forwarded ((example_ready True)
          \<lparr>sink := Some (example_sink\<lparr>received := [pat_packet, pat_packet]\<rparr>)\<rparr>)
     = [pat_packet, pat_packet]"
  by (simp add: example_defs forwarded_def filter_defs pcr_defs)

text \<open>
  C3, amended.  Once \<open>stop\<close> is set, or when no sink is connected, every later call of
  \<open>HandlePacket\<close> returns false and the sink receives nothing more.
\<close>

theorem no_forwarding_once_stopped:
  assumes "stop s \<or> sink s = None" and "HandlePackets calls s = Inr (rs, s')"
  shows "(\<forall>r \<in> set rs. \<not> r) \<and> forwarded s' = forwarded s \<and> length rs = length calls"
  using HandlePackets_stopped [OF assms] by (auto simp: forwarded_def)

theorem no_forwarding_once_stopped_witness:
  "stop example_stopped
   \<and> HandlePackets [(video_packet, []), (pcr_packet 0, [])] example_stopped
        = Inr ([False, False], example_stopped)
   \<and> forwarded example_stopped
        = [pat_packet, pmt_packet, pcr_packet 0, video_packet]
   \<and> sink (ProgramFilter_new example_option) = None
   \<and> HandlePackets [(video_packet, [])] (ProgramFilter_new example_option)
        = Inr ([False], ProgramFilter_new example_option)
   \<and> forwarded (ProgramFilter_new example_option) = []"
proof -
  have a: "stop example_stopped \<or> sink example_stopped = None"
    by (simp add: example_defs)
  have ra: "HandlePackets [(video_packet, []), (pcr_packet 0, [])] example_stopped
        = Inr ([False, False], example_stopped)"
    by (simp add: example_defs filter_defs)
  have b: "stop (ProgramFilter_new example_option) \<or> sink (ProgramFilter_new example_option) = None"
    by (simp add: ProgramFilter_new_def)
  have rb: "HandlePackets [(video_packet, [])] (ProgramFilter_new example_option)
        = Inr ([False], ProgramFilter_new example_option)"
    by (simp add: example_defs filter_defs)
  from no_forwarding_once_stopped [OF a ra] no_forwarding_once_stopped [OF b rb] ra rb
  show ?thesis
    by (simp add: example_defs forwarded_def ProgramFilter_new_def)
qed



end
